theory Spec2Isabelle
  imports Complex_Main
begin

section \<open>Arrays\<close>

text \<open>
  A two-dimensional numpy array is a record of its shape and its rows. The shape is kept
  apart from the rows because the sources distinguish \<open>zeros((n, 0))\<close> (n rows, no column)
  from \<open>zeros((0, n))\<close> (no row). Floating-point entries are modelled as real numbers.
\<close>

record mat =
  nrows :: nat
  ncols :: nat
  rws :: "real list list"

definition wf_mat :: "mat \<Rightarrow> bool" where
  "wf_mat M = (length (rws M) = nrows M \<and> list_all (\<lambda>r. length r = ncols M) (rws M))"

definition zeros :: "nat \<Rightarrow> nat \<Rightarrow> mat" where
  "zeros m k = \<lparr>nrows = m, ncols = k, rws = replicate m (replicate k 0)\<rparr>"

text \<open>
  Exceptions are values. \<open>NonFinite\<close> and \<open>Unmodelled\<close> are not Python exceptions:
  the first marks a float result that numpy would report as \<open>inf\<close> or \<open>nan\<close> (a division
  by zero) and that the real-number model does not represent, the second an array
  operation on a \<open>None\<close> operand, which numpy continues with an object array.
\<close>

datatype error = ValueError | TypeError | IndexError | AttributeError | CORAerror string | Raised
  | NonFinite | Unmodelled

definition ebind :: "error + 'a \<Rightarrow> ('a \<Rightarrow> error + 'b) \<Rightarrow> error + 'b" where
  "ebind m f = (case m of Inl e \<Rightarrow> Inl e | Inr x \<Rightarrow> f x)"

text \<open>Running a loop body over the indices in order; the first exception ends the loop.\<close>

fun emap :: "('a \<Rightarrow> error + 'b) \<Rightarrow> 'a list \<Rightarrow> error + 'b list" where
  "emap f [] = Inr []"
| "emap f (x # xs) = ebind (f x) (\<lambda>y. ebind (emap f xs) (\<lambda>ys. Inr (y # ys)))"

text \<open>Floats with the two infinities, for \<open>np.inf\<close> and \<open>-np.inf\<close>.\<close>

datatype xreal = MInf | Fin real | PInf

fun xneg :: "xreal \<Rightarrow> xreal" where
  "xneg MInf = PInf"
| "xneg (Fin x) = Fin (- x)"
| "xneg PInf = MInf"

fun xmin :: "xreal \<Rightarrow> xreal \<Rightarrow> xreal" where
  "xmin MInf y = MInf"
| "xmin (Fin x) MInf = MInf"
| "xmin (Fin x) (Fin y) = Fin (min x y)"
| "xmin (Fin x) PInf = Fin x"
| "xmin PInf y = y"

text \<open>
  A column vector (shape \<open>(m, 1)\<close>) is the list of its entries. \<open>col M i\<close> is
  \<open>M[:, i:i+1]\<close>; \<open>matvec M v\<close> is \<open>M @ v\<close>, which raises when the inner dimensions
  differ; \<open>bsub u v\<close> is \<open>u - v\<close> on column vectors with numpy's broadcasting of a
  one-entry operand; \<open>np_max\<close> raises on an empty array; \<open>norm2\<close> is
  \<open>np.linalg.norm\<close>.
\<close>

definition dot :: "real list \<Rightarrow> real list \<Rightarrow> real" where
  "dot u v = sum_list (map2 (*) u v)"

definition col :: "mat \<Rightarrow> nat \<Rightarrow> real list" where
  "col M i = map (\<lambda>r. r ! i) (rws M)"

definition matvec :: "mat \<Rightarrow> real list \<Rightarrow> error + real list" where
  "matvec M v = (if ncols M = length v then Inr (map (\<lambda>r. dot r v) (rws M)) else Inl ValueError)"

definition bsub :: "real list \<Rightarrow> real list \<Rightarrow> error + real list" where
  "bsub u v =
     (if length u = length v then Inr (map2 (-) u v)
      else if length v = 1 then Inr (map (\<lambda>x. x - hd v) u)
      else if length u = 1 then Inr (map (\<lambda>y. hd u - y) v)
      else Inl ValueError)"

fun np_max :: "real list \<Rightarrow> error + real" where
  "np_max [] = Inl ValueError"
| "np_max (x # xs) = Inr (fold max xs x)"

definition reshape_col :: "real list \<Rightarrow> mat" where
  "reshape_col v = \<lparr>nrows = length v, ncols = 1, rws = map (\<lambda>x. [x]) v\<rparr>"

text \<open>A numpy array of one dimension (shape \<open>(k,)\<close>) or of two.\<close>

datatype ndarray = Arr1 "real list" | Arr2 mat

definition norm2 :: "real list \<Rightarrow> real" where
  "norm2 v = sqrt (sum_list (map (\<lambda>x. x * x) v))"

section \<open>Zonotopes: the empty constructor\<close>

text \<open>
  \<open>contSet/zonotope/empty.py\<close>. The object is built field by field: precedence 110,
  centre \<open>zeros((n, 0))\<close>, generators \<open>zeros((n, 0))\<close>.
\<close>

record zonotope =
  precedence :: nat
  center :: mat
  generators :: mat

text \<open>
  The fields \<open>c\<close> and \<open>G\<close> of the class are named after their accessors, \<open>center\<close> and
  \<open>generators\<close>. The argument is typed as an integer, so of the two input checks only
  \<open>n < 0\<close> remains.
\<close>

definition zonotope_empty :: "int \<Rightarrow> error + zonotope" where
  "zonotope_empty n =
     (if n < 0 then Inl (CORAerror ''CORA:wrongInputInConstructor'')
      else Inr \<lparr>precedence = 110, center = zeros (nat n) 0, generators = zeros (nat n) 0\<rparr>)"

text \<open>The ambient dimension of a zonotope is the number of rows of its centre.\<close>

definition zdim :: "zonotope \<Rightarrow> nat" where
  "zdim Z = nrows (center Z)"

section \<open>Zonotopes: intersection by averaging (\<open>priv_andAveraging.py\<close>)\<close>

text \<open>
  The arguments are dynamically typed and optional, so they are Python values; a list
  argument is a list of zonotopes.
\<close>

datatype pyval = PyNone | PyBool bool | PyInt int | PyFloat real | PyStr string
  | PyList "zonotope list" | PyOther

text \<open>\<open>isinstance(x, (int, float))\<close>: a Python bool is an int.\<close>

fun is_number :: "pyval \<Rightarrow> bool" where
  "is_number (PyBool b) = True"
| "is_number (PyInt k) = True"
| "is_number (PyFloat x) = True"
| "is_number v = False"

fun num_val :: "pyval \<Rightarrow> real" where
  "num_val (PyBool b) = (if b then 1 else 0)"
| "num_val (PyInt k) = real_of_int k"
| "num_val (PyFloat x) = x"
| "num_val v = 0"

fun is_bool :: "pyval \<Rightarrow> bool" where
  "is_bool (PyBool b) = True"
| "is_bool v = False"

fun is_list :: "pyval \<Rightarrow> bool" where
  "is_list (PyList zs) = True"
| "is_list v = False"

text \<open>
  Modelled from the spec: the accessors and the constructor of the zonotope class, whose
  source is not among the files. \<open>center()\<close> returns the stored centre \<open>c\<close>, an n by 1
  column (a two-dimensional array, as in \<open>empty.py\<close> and \<open>abs_op.py\<close>), \<open>generators()\<close>
  the generator matrix \<open>G\<close>; both are the record fields. \<open>Zonotope(c, G)\<close> stores the
  centre it is given (a one-dimensional centre as a column) and the generators.
\<close>

definition Zonotope :: "ndarray \<Rightarrow> mat \<Rightarrow> zonotope" where
  "Zonotope cv Gm =
     \<lparr>precedence = 110,
      center = (case cv of Arr1 v \<Rightarrow> reshape_col v | Arr2 M \<Rightarrow> M),
      generators = Gm\<rparr>"

text \<open>
  \<open>trace_GGt Gm\<close> is \<open>np.trace(G @ G.T)\<close>, the sum of the squared entries; \<open>hconcat\<close> is
  \<open>np.concatenate(..., axis=1)\<close>; \<open>badd\<close> is \<open>+\<close> on vectors with broadcasting of a
  one-entry operand; \<open>smult\<close> and \<open>sdiv\<close> scale a matrix.

  \<open>np_add\<close> is \<open>+\<close> on two-dimensional arrays with numpy's broadcasting: along each
  axis the two extents must agree or one of them be 1, and an operand of extent 1 is
  repeated. A one-dimensional operand of shape \<open>(k,)\<close> enters as the row of shape
  \<open>(1, k)\<close> (\<open>as2d\<close>), so the sum of a vector of n entries and an n by 1 column is an
  n by n array.
\<close>

definition trace_GGt :: "mat \<Rightarrow> real" where
  "trace_GGt Gm = sum_list (map (\<lambda>r. dot r r) (rws Gm))"

definition hconcat :: "mat \<Rightarrow> mat \<Rightarrow> error + mat" where
  "hconcat M N =
     (if nrows M = nrows N
      then Inr \<lparr>nrows = nrows M, ncols = ncols M + ncols N, rws = map2 (@) (rws M) (rws N)\<rparr>
      else Inl ValueError)"

definition badd :: "real list \<Rightarrow> real list \<Rightarrow> error + real list" where
  "badd u v =
     (if length u = length v then Inr (map2 (+) u v)
      else if length v = 1 then Inr (map (\<lambda>x. x + hd v) u)
      else if length u = 1 then Inr (map (\<lambda>y. hd u + y) v)
      else Inl ValueError)"

definition smult :: "real \<Rightarrow> mat \<Rightarrow> mat" where
  "smult a M = \<lparr>nrows = nrows M, ncols = ncols M, rws = map (map ((*) a)) (rws M)\<rparr>"

definition sdiv :: "mat \<Rightarrow> real \<Rightarrow> mat" where
  "sdiv M a = \<lparr>nrows = nrows M, ncols = ncols M, rws = map (map (\<lambda>x. x / a)) (rws M)\<rparr>"

definition bdim :: "nat \<Rightarrow> nat \<Rightarrow> nat option" where
  "bdim a b = (if a = b then Some a else if a = 1 then Some b else if b = 1 then Some a else None)"

definition pick :: "nat \<Rightarrow> nat \<Rightarrow> nat" where
  "pick a i = (if a = 1 then 0 else i)"

definition np_add :: "mat \<Rightarrow> mat \<Rightarrow> error + mat" where
  "np_add M N =
     (case (bdim (nrows M) (nrows N), bdim (ncols M) (ncols N)) of
        (Some r, Some k) \<Rightarrow>
          Inr \<lparr>nrows = r, ncols = k,
               rws = map (\<lambda>i. map (\<lambda>j. rws M ! pick (nrows M) i ! pick (ncols M) j
                                         + rws N ! pick (nrows N) i ! pick (ncols N) j) [0..<k])
                       [0..<r]\<rparr>
      | _ \<Rightarrow> Inl ValueError)"

definition as2d :: "ndarray \<Rightarrow> mat" where
  "as2d a = (case a of Arr1 v \<Rightarrow> \<lparr>nrows = 1, ncols = length v, rws = [v]\<rparr> | Arr2 M \<Rightarrow> M)"

definition nd_div :: "ndarray \<Rightarrow> real \<Rightarrow> ndarray" where
  "nd_div a d = (case a of Arr1 v \<Rightarrow> Arr1 (map (\<lambda>x. x / d) v) | Arr2 M \<Rightarrow> Arr2 (sdiv M d))"

text \<open>
  The loop of \<open>_catWeighted\<close> over the zonotopes, with the running index, centre and
  generator matrix. The running centre starts as the vector \<open>np.zeros(n)\<close>; each step
  adds the scaled centre column of the next zonotope.
\<close>

fun cat_loop :: "zonotope list \<Rightarrow> nat \<Rightarrow> real list \<Rightarrow> ndarray \<Rightarrow> mat \<Rightarrow> error + (ndarray \<times> mat)" where
  "cat_loop [] i w cv Gm = Inr (cv, Gm)"
| "cat_loop (Z # Zs) i w cv Gm =
     (if i < length w then
        ebind (hconcat Gm (smult (w ! i) (generators Z))) (\<lambda>G'.
        ebind (np_add (as2d cv) (smult (w ! i) (center Z))) (\<lambda>c'.
          cat_loop Zs (i + 1) w (Arr2 c') G'))
      else Inl IndexError)"

text \<open>
  A division by a zero weight sum gives \<open>inf\<close> or \<open>nan\<close> entries in numpy, without an
  exception; the model reports \<open>NonFinite\<close>.
\<close>

definition catWeighted :: "zonotope list \<Rightarrow> real list \<Rightarrow> error + (ndarray \<times> mat)" where
  "catWeighted zonolist w =
     (case zonolist of
        [] \<Rightarrow> Inl IndexError
      | Z0 # rest \<Rightarrow>
          let n = zdim Z0 in
          ebind (cat_loop zonolist 0 w (Arr1 (replicate n 0)) (zeros n 0)) (\<lambda>(cv, Gm).
            let w_sum = sum_list w in
            if w_sum = 0 then Inl NonFinite
            else Inr (nd_div cv w_sum, sdiv Gm w_sum)))"

text \<open>
  The closed-form weights of method \<open>normGen\<close>. A zonotope without generator energy makes
  \<open>1.0 / tVec\<close> infinite.
\<close>

definition closed_form_weights :: "zonotope list \<Rightarrow> real \<Rightarrow> error + real list" where
  "closed_form_weights Z_cell sumofw =
     (let tVec = map (\<lambda>Z. trace_GGt (generators Z)) Z_cell;
          inv_tVecSum = sum_list (map (\<lambda>t. 1 / t) tVec)
      in if list_ex (\<lambda>t. t = 0 \<or> t * inv_tVecSum = 0) tVec then Inl NonFinite
         else Inr (map (\<lambda>t. sumofw / (t * inv_tVecSum)) tVec))"

text \<open>The three defaults and the four input checks, in the order of the source.\<close>

definition validate_args :: "pyval \<Rightarrow> pyval \<Rightarrow> pyval \<Rightarrow> pyval \<Rightarrow> error + (zonotope list \<times> string \<times> bool \<times> real)" where
  "validate_args Z_cell method0 closedform0 sumofw0 =
     (let method = (if method0 = PyNone then PyStr ''normGen'' else method0);
          closedform = (if closedform0 = PyNone then PyBool True else closedform0);
          sumofw = (if sumofw0 = PyNone then PyFloat 1 else sumofw0)
      in if \<not> is_list Z_cell \<or> Z_cell = PyList [] then Inl ValueError
         else if method \<notin> set [PyStr ''normGen'', PyStr ''radius'', PyStr ''volume''] then Inl ValueError
         else if \<not> is_bool closedform then Inl ValueError
         else if \<not> is_number sumofw \<or> num_val sumofw < 0 then Inl ValueError
         else Inr ((case Z_cell of PyList zs \<Rightarrow> zs | _ \<Rightarrow> []),
                   (case method of PyStr m \<Rightarrow> m | _ \<Rightarrow> []),
                   (case closedform of PyBool cf \<Rightarrow> cf | _ \<Rightarrow> False),
                   num_val sumofw))"

text \<open>
  The numerical optimiser (\<open>scipy.optimize.minimize\<close> with BFGS on the objective of the
  chosen method, started at the uniform weights) is a parameter: from the zonotopes, the
  method and the start it yields the weight vector.
\<close>

type_synonym optimiser = "zonotope list \<Rightarrow> string \<Rightarrow> real list \<Rightarrow> real list"

definition priv_andAveraging :: "optimiser \<Rightarrow> pyval \<Rightarrow> pyval \<Rightarrow> pyval \<Rightarrow> pyval \<Rightarrow> error + zonotope" where
  "priv_andAveraging minimize Z_cell method0 closedform0 sumofw0 =
     ebind (validate_args Z_cell method0 closedform0 sumofw0) (\<lambda>(zs, method, closedform, sumofw).
     ebind (if method = ''normGen'' \<and> closedform then closed_form_weights zs sumofw
            else Inr (minimize zs method (replicate (length zs) (1 / real (length zs))))) (\<lambda>w.
     ebind (catWeighted zs w) (\<lambda>(cv, Gm). Inr (Zonotope cv Gm))))"

text \<open>
  The zonotope of the docstring example: centre (2, 1), generators (2, 2) and (2, 0).
\<close>

definition Z_example :: zonotope where
  "Z_example = \<lparr>precedence = 110, center = \<lparr>nrows = 2, ncols = 1, rws = [[2], [1]]\<rparr>,
                 generators = \<lparr>nrows = 2, ncols = 2, rws = [[2, 2], [2, 0]]\<rparr>\<rparr>"

section \<open>Polytopes\<close>

text \<open>
  The polytope object as the sources read it: the halfspace matrices \<open>A\<close>, \<open>Ae\<close> and the
  vertex matrix \<open>V\<close> (each possibly \<open>None\<close>), the offsets \<open>b\<close>, \<open>be\<close> as column vectors,
  and the two representation flags.
\<close>

record polytope =
  polyA :: "mat option"
  polyb :: "real list option"
  polyAe :: "mat option"
  polybe :: "real list option"
  polyV :: "mat option"
  isHRep :: bool
  isVRep :: bool

subsection \<open>Containment of a point cloud (\<open>contains_.py\<close>)\<close>

datatype 'a scalar_or_array = Scalar 'a | Array "'a list"

type_synonym contains_result = "bool scalar_or_array \<times> bool \<times> xreal scalar_or_array"

text \<open>
  The inequality part of the loop body (lines 126 to 143): it yields \<open>is_contained\<close> and
  the entry of \<open>scaling_factors\<close>, which stays at its initial \<open>inf\<close> unless scaling is
  requested.
\<close>

definition check_ineq :: "polytope \<Rightarrow> mat \<Rightarrow> real list \<Rightarrow> real \<Rightarrow> bool \<Rightarrow> error + (bool \<times> xreal)" where
  "check_ineq P Am point tol scalingToggle =
     (if nrows Am > 0 then
        ebind (matvec Am point) (\<lambda>Ap.
        ebind (case polyb P of None \<Rightarrow> Inl TypeError | Some bv \<Rightarrow> bsub Ap bv) (\<lambda>violations.
        ebind (np_max violations) (\<lambda>max_violation.
          let is_contained = \<not> (max_violation > tol) in
          if scalingToggle then
            (if is_contained then Inr (is_contained, Fin 1)
             else
               let b_norm = norm2 (the (polyb P)) in
               if b_norm > 1 / 10 ^ 9 then Inr (is_contained, Fin (1 + max_violation / b_norm))
               else Inr (is_contained, Fin (1 + max_violation)))
          else Inr (is_contained, PInf))))
      else Inr (True, PInf))"

text \<open>The equality part (lines 146 to 151), given \<open>is_contained\<close> so far.\<close>

definition check_eq :: "polytope \<Rightarrow> real list \<Rightarrow> real \<Rightarrow> bool \<Rightarrow> error + bool" where
  "check_eq P point tol is_contained =
     (case polyAe P of
        None \<Rightarrow> Inr is_contained
      | Some Aem \<Rightarrow>
          if nrows Aem > 0 then
            ebind (matvec Aem point) (\<lambda>Aep.
            ebind (case polybe P of None \<Rightarrow> Inl TypeError | Some bev \<Rightarrow> bsub Aep bev) (\<lambda>d.
            ebind (np_max (map abs d)) (\<lambda>max_eq_violation.
              Inr (if max_eq_violation > tol then False else is_contained))))
          else Inr is_contained)"

definition check_point :: "polytope \<Rightarrow> mat \<Rightarrow> real list \<Rightarrow> real \<Rightarrow> bool \<Rightarrow> error + (bool \<times> xreal)" where
  "check_point P Am point tol scalingToggle =
     ebind (check_ineq P Am point tol scalingToggle) (\<lambda>(is_contained, sf).
     ebind (check_eq P point tol is_contained) (\<lambda>res. Inr (res, sf)))"

definition as_mat :: "ndarray \<Rightarrow> mat" where
  "as_mat points = (case points of Arr1 v \<Rightarrow> reshape_col v | Arr2 M \<Rightarrow> M)"

definition contains_pointcloud ::
  "polytope \<Rightarrow> ndarray \<Rightarrow> string \<Rightarrow> real \<Rightarrow> bool \<Rightarrow> bool \<Rightarrow> error + contains_result" where
  "contains_pointcloud P points method tol certToggle scalingToggle =
     (let pts = as_mat points;
          num_points = ncols pts
      in case polyA P of
           None \<Rightarrow> Inl (CORAerror ''CORA:notSupported'')
         | Some Am \<Rightarrow>
             ebind (emap (\<lambda>i. check_point P Am (col pts i) tol scalingToggle) [0..<num_points]) (\<lambda>rs.
               let results = map fst rs;
                   scaling0 = map snd rs;
                   scaling_factors =
                     (if scalingToggle
                      then map2 (\<lambda>r s. if r then xmin s (Fin 1) else s) results scaling0
                      else scaling0)
               in if num_points = 1
                  then Inr (Scalar (results ! 0), True, Scalar (scaling_factors ! 0))
                  else Inr (Array results, True, Array scaling_factors)))"

text \<open>
  The set argument of the entry point \<open>contains_\<close> (here \<open>contains_polytope\<close>): a numpy array, or an object. Of an object only two
  things are used: whether it has a \<open>vertices\<close> method and what the call does, and
  whether it has a \<open>center\<close> method and what that returns (possibly \<open>None\<close>).
\<close>

datatype 'a attr = NoAttr | Raises | Returns 'a

datatype setarg = NdArray ndarray | SetObj "ndarray attr" "ndarray option attr"

text \<open>
  The bare \<open>except\<close> around the vertex path swallows every exception raised inside the
  \<open>try\<close>, those of the point-cloud check included.
\<close>

definition contains_polytope ::
  "polytope \<Rightarrow> setarg \<Rightarrow> string \<Rightarrow> real \<Rightarrow> int \<Rightarrow> bool \<Rightarrow> bool \<Rightarrow> error + contains_result" where
  "contains_polytope P S method tol maxEval certToggle scalingToggle =
     (case S of
        NdArray pts \<Rightarrow> contains_pointcloud P pts method tol certToggle scalingToggle
      | SetObj verts cen \<Rightarrow>
          (case (case verts of
                   Returns vs \<Rightarrow>
                     (case contains_pointcloud P vs method tol certToggle scalingToggle of
                        Inr r \<Rightarrow> Some r | Inl e \<Rightarrow> None)
                 | Raises \<Rightarrow> None
                 | NoAttr \<Rightarrow> None) of
             Some r \<Rightarrow> Inr r
           | None \<Rightarrow>
               (case cen of
                  Returns (Some ce) \<Rightarrow> contains_pointcloud P ce method tol certToggle scalingToggle
                | Returns None \<Rightarrow> Inr (Scalar False, True, Scalar PInf)
                | Raises \<Rightarrow> Inl Raised
                | NoAttr \<Rightarrow> Inr (Scalar False, True, Scalar PInf))))"

text \<open>
  The containment test in the words of the specification: no inequality residual above
  the tolerance and, where equality constraints are present, no absolute equality
  residual above it.
\<close>

definition residuals :: "mat \<Rightarrow> real list \<Rightarrow> real list \<Rightarrow> real list" where
  "residuals M v p = map2 (\<lambda>r x. dot r p - x) (rws M) v"

definition eq_present :: "polytope \<Rightarrow> bool" where
  "eq_present P = (case polyAe P of None \<Rightarrow> False | Some Aem \<Rightarrow> nrows Aem > 0)"

definition max_violation :: "polytope \<Rightarrow> real list \<Rightarrow> real" where
  "max_violation P p = Max (set (residuals (the (polyA P)) (the (polyb P)) p))"

definition max_eq_violation :: "polytope \<Rightarrow> real list \<Rightarrow> real" where
  "max_eq_violation P p = Max (set (map abs (residuals (the (polyAe P)) (the (polybe P)) p)))"

definition spec_contained :: "polytope \<Rightarrow> real list \<Rightarrow> real \<Rightarrow> bool" where
  "spec_contained P p tol =
     (max_violation P p \<le> tol \<and> (eq_present P \<longrightarrow> max_eq_violation P p \<le> tol))"

text \<open>
  The scaling factor in the words of the specification, for a point that is not
  contained: \<open>1 + maxViolation / ||b||\<close> when the norm exceeds \<open>1e-9\<close>, else
  \<open>1 + maxViolation\<close>.
\<close>

definition spec_scaling :: "polytope \<Rightarrow> real list \<Rightarrow> real" where
  "spec_scaling P p =
     (if norm2 (the (polyb P)) > 1 / 10 ^ 9
      then 1 + max_violation P p / norm2 (the (polyb P))
      else 1 + max_violation P p)"

text \<open>
  A well-shaped query in dimension n: \<open>A\<close> is m by n, \<open>b\<close> has m entries, and \<open>Ae\<close>, when
  given, is me by n with \<open>be\<close> of me entries; the point cloud is n by k.
\<close>

definition wf_hrep :: "polytope \<Rightarrow> nat \<Rightarrow> bool" where
  "wf_hrep P n =
     (case polyA P of
        None \<Rightarrow> False
      | Some Am \<Rightarrow> wf_mat Am \<and> ncols Am = n
          \<and> (case polyb P of None \<Rightarrow> False | Some bv \<Rightarrow> length bv = nrows Am)
          \<and> (case polyAe P of
                None \<Rightarrow> True
              | Some Aem \<Rightarrow> wf_mat Aem \<and> ncols Aem = n
                  \<and> (case polybe P of None \<Rightarrow> False | Some bev \<Rightarrow> length bev = nrows Aem)))"

definition has_ineq :: "polytope \<Rightarrow> bool" where
  "has_ineq P = (case polyA P of None \<Rightarrow> False | Some Am \<Rightarrow> 0 < nrows Am)"

definition entries :: "'a scalar_or_array \<Rightarrow> 'a list" where
  "entries r = (case r of Scalar x \<Rightarrow> [x] | Array xs \<Rightarrow> xs)"

subsection \<open>Box enclosure from a halfspace representation (\<open>priv_box_H.py\<close>)\<close>

text \<open>
  Modelled from the spec: \<open>unitvector(i, n)\<close>, whose source is not part of the
  repository files at hand, is the i-th standard basis direction of dimension n
  (1-based), as a column vector.
\<close>

definition unitvector :: "nat \<Rightarrow> nat \<Rightarrow> real list" where
  "unitvector i n = map (\<lambda>k. if k + 1 = i then 1 else 0) [0..<n]"

definition eye :: "nat \<Rightarrow> mat" where
  "eye n = \<lparr>nrows = n, ncols = n,
             rws = map (\<lambda>i. map (\<lambda>j. if i = j then 1 else 0) [0..<n]) [0..<n]\<rparr>"

definition mat_neg :: "mat \<Rightarrow> mat" where
  "mat_neg M = \<lparr>nrows = nrows M, ncols = ncols M, rws = map (map uminus) (rws M)\<rparr>"

definition vstack :: "mat \<Rightarrow> mat \<Rightarrow> error + mat" where
  "vstack M N =
     (if ncols M = ncols N
      then Inr \<lparr>nrows = nrows M + nrows N, ncols = ncols M, rws = rws M @ rws N\<rparr>
      else Inl ValueError)"

text \<open>
  The support function \<open>priv_supportFunc\<close> is a parameter: it solves a linear program
  and its source is not among the files. Only its first result, the support value
  (possibly infinite), is used.
\<close>

type_synonym supportFunc = "mat \<Rightarrow> real list \<Rightarrow> mat \<Rightarrow> real list \<Rightarrow> real list \<Rightarrow> string \<Rightarrow> xreal"

text \<open>
  The loop over the basis vectors, on the remaining indices; \<open>None\<close> is the early
  return taken when an upper support value is \<open>-inf\<close>, before the lower one is asked
  for.
\<close>

fun box_loop ::
  "supportFunc \<Rightarrow> mat \<Rightarrow> real list \<Rightarrow> mat \<Rightarrow> real list \<Rightarrow> nat \<Rightarrow> nat list
     \<Rightarrow> xreal list \<Rightarrow> xreal list \<Rightarrow> (xreal list \<times> xreal list) option" where
  "box_loop sf Am bv Aem bev n [] ub lb = Some (ub, lb)"
| "box_loop sf Am bv Aem bev n (i # is) ub lb =
     (let e_i = unitvector (i + 1) n;
          ub_val = sf Am bv Aem bev e_i ''upper'';
          ub' = ub[i := ub_val]
      in if ub' ! i = MInf then None
         else
           let lb_val = sf Am bv Aem bev e_i ''lower''
           in box_loop sf Am bv Aem bev n is ub' (lb[i := lb_val]))"

definition priv_box_H ::
  "supportFunc \<Rightarrow> mat \<Rightarrow> real list \<Rightarrow> mat \<Rightarrow> real list \<Rightarrow> nat
     \<Rightarrow> error + (mat \<times> xreal list \<times> bool)" where
  "priv_box_H sf Am bv Aem bev n =
     (let ub = replicate n PInf;
          lb = replicate n MInf
      in case box_loop sf Am bv Aem bev n [0..<n] ub lb of
           None \<Rightarrow> Inr (\<lparr>nrows = 0, ncols = n, rws = []\<rparr>, [], True)
         | Some (ub', lb') \<Rightarrow>
             ebind (vstack (eye n) (mat_neg (eye n))) (\<lambda>A_out.
               Inr (A_out, ub' @ map xneg lb', False)))"

text \<open>
  An instance of the parameter for the examples: the support values of the unit box
  \<open>[-1, 1]^n\<close>, and those of an infeasible system (\<open>-inf\<close> upwards, \<open>inf\<close> downwards).
\<close>

definition supportFunc_unit_box :: supportFunc where
  "supportFunc_unit_box Am bv Aem bev d m =
     (if m = ''upper'' then Fin (sum_list (map abs d)) else Fin (- sum_list (map abs d)))"

definition supportFunc_infeasible :: supportFunc where
  "supportFunc_infeasible Am bv Aem bev d m = (if m = ''upper'' then MInf else PInf)"

subsection \<open>Minkowski sum (\<open>plus.py\<close>)\<close>

text \<open>
  Modelled from the spec: the constructors of the polytope class, whose source is not
  among the files. A polytope is constructed from (A, b) and optionally (Ae, be), or from
  a vertex matrix; \<open>Inf(n)\<close> is the unconstrained space (no constraint row), \<open>empty(n)\<close>
  has the single row \<open>0 x \<le> -1\<close>, and \<open>origin(n)\<close> is the point at the origin (in the
  tests: the rows of the identity and a row of -1, with offsets 0).
\<close>

definition Polytope_H :: "mat \<Rightarrow> real list \<Rightarrow> mat option \<Rightarrow> real list option \<Rightarrow> polytope" where
  "Polytope_H Am bv Aem bev =
     \<lparr>polyA = Some Am, polyb = Some bv, polyAe = Aem, polybe = bev, polyV = None,
      isHRep = True, isVRep = False\<rparr>"

definition Polytope_V :: "mat \<Rightarrow> polytope" where
  "Polytope_V Vm =
     \<lparr>polyA = None, polyb = None, polyAe = None, polybe = None, polyV = Some Vm,
      isHRep = False, isVRep = True\<rparr>"

definition Polytope_Inf :: "nat \<Rightarrow> polytope" where
  "Polytope_Inf n = Polytope_H (zeros 0 n) [] None None"

definition Polytope_empty :: "nat \<Rightarrow> polytope" where
  "Polytope_empty n = Polytope_H (zeros 1 n) [- 1] None None"

definition Polytope_origin :: "nat \<Rightarrow> polytope" where
  "Polytope_origin n =
     Polytope_H \<lparr>nrows = n + 1, ncols = n, rws = rws (eye n) @ [replicate n (- 1)]\<rparr>
       (replicate (n + 1) 0) None None"

text \<open>\<open>np.block([[a, b], [c, d]])\<close> and \<open>np.vstack\<close> of two column vectors.\<close>

definition block2x2 :: "mat \<Rightarrow> mat \<Rightarrow> mat \<Rightarrow> mat \<Rightarrow> error + mat" where
  "block2x2 a b c d =
     ebind (hconcat a b) (\<lambda>top. ebind (hconcat c d) (\<lambda>bot. vstack top bot))"

definition vstack_vec :: "real list option \<Rightarrow> real list option \<Rightarrow> error + real list" where
  "vstack_vec u v =
     (case (u, v) of (Some x, Some y) \<Rightarrow> Inr (x @ y) | _ \<Rightarrow> Inl Unmodelled)"

text \<open>
  The lifted polytope \<open>P_highdim\<close> of \<open>_aux_plus_Hpoly_Hpoly\<close> in 2n variables, with the
  four cases of which operand carries equality constraints.
\<close>

definition aux_lift :: "polytope \<Rightarrow> polytope \<Rightarrow> nat \<Rightarrow> error + polytope" where
  "aux_lift P1 P2 n =
     (case (polyA P1, polyA P2) of
        (Some A1, Some A2) \<Rightarrow>
          (let Z_A = zeros (nrows A1) (ncols A2) in
           ebind (block2x2 A2 (mat_neg A2) Z_A A1) (\<lambda>Am.
           ebind (vstack_vec (polyb P2) (polyb P1)) (\<lambda>bv.
             case (polyAe P1, polyAe P2) of
               (Some Ae1, Some Ae2) \<Rightarrow>
                 (let Z_Ae = zeros (nrows Ae1) (ncols Ae2) in
                  ebind (block2x2 Ae2 (mat_neg Ae2) Z_Ae Ae1) (\<lambda>Aem.
                  ebind (vstack_vec (polybe P2) (polybe P1)) (\<lambda>bev.
                    Inr (Polytope_H Am bv (Some Aem) (Some bev)))))
             | (Some Ae1, None) \<Rightarrow>
                 (let Z_Ae = zeros (nrows Ae1) n in
                  ebind (hconcat Z_Ae Ae1) (\<lambda>Aem.
                    Inr (Polytope_H Am bv (Some Aem) (polybe P1))))
             | (None, Some Ae2) \<Rightarrow>
                 (let Z_Ae = zeros (nrows Ae2) n in
                  ebind (hconcat Ae2 Z_Ae) (\<lambda>Aem.
                    Inr (Polytope_H Am bv (Some Aem) (polybe P2))))
             | (None, None) \<Rightarrow> Inr (Polytope_H Am bv None None))))
      | _ \<Rightarrow> Inl AttributeError)"

text \<open>
  The projection \<open>project\<close> and the conversion \<open>constraints\<close> to a halfspace
  representation are parameters (their sources are not among the files), and so is the
  method \<open>representsa\<close>, asked with the name of a set kind and a tolerance.
\<close>

type_synonym projector = "polytope \<Rightarrow> nat list \<Rightarrow> error + polytope"
type_synonym converter = "polytope \<Rightarrow> error + polytope"
type_synonym representsa = "polytope \<Rightarrow> string \<Rightarrow> real \<Rightarrow> bool"

definition aux_plus_Hpoly_Hpoly :: "projector \<Rightarrow> polytope \<Rightarrow> polytope \<Rightarrow> nat \<Rightarrow> error + polytope" where
  "aux_plus_Hpoly_Hpoly project P1 P2 n =
     ebind (aux_lift P1 P2 n) (\<lambda>P_highdim. project P_highdim [1..<n + 1])"

text \<open>
  \<open>V[:, idx] = v\<close>: the column is written when \<open>v\<close> has one entry per row (a one-entry
  \<open>v\<close> is broadcast).
\<close>

definition set_col :: "mat \<Rightarrow> nat \<Rightarrow> real list \<Rightarrow> error + mat" where
  "set_col Vm idx v =
     (if idx < ncols Vm then
        (if length v = nrows Vm
         then Inr (Vm\<lparr>rws := map2 (\<lambda>row x. row[idx := x]) (rws Vm) v\<rparr>)
         else if length v = 1
         then Inr (Vm\<lparr>rws := map (\<lambda>row. row[idx := hd v]) (rws Vm)\<rparr>)
         else Inl ValueError)
      else Inl IndexError)"

text \<open>The two nested loops of \<open>_aux_plus_Vpoly_Vpoly\<close>, with the running column \<open>idx\<close>.\<close>

fun inner_loop :: "mat \<Rightarrow> mat \<Rightarrow> nat \<Rightarrow> nat list \<Rightarrow> mat \<Rightarrow> nat \<Rightarrow> error + (mat \<times> nat)" where
  "inner_loop V1 V2 i [] Vm idx = Inr (Vm, idx)"
| "inner_loop V1 V2 i (j # js) Vm idx =
     ebind (badd (col V1 j) (col V2 i)) (\<lambda>v.
     ebind (set_col Vm idx v) (\<lambda>V'.
       inner_loop V1 V2 i js V' (idx + 1)))"

fun outer_loop :: "mat \<Rightarrow> mat \<Rightarrow> nat \<Rightarrow> nat list \<Rightarrow> mat \<Rightarrow> nat \<Rightarrow> error + (mat \<times> nat)" where
  "outer_loop V1 V2 num_v1 [] Vm idx = Inr (Vm, idx)"
| "outer_loop V1 V2 num_v1 (i # is) Vm idx =
     ebind (inner_loop V1 V2 i [0..<num_v1] Vm idx) (\<lambda>(V', idx').
       outer_loop V1 V2 num_v1 is V' idx')"

definition aux_plus_Vpoly_Vpoly :: "polytope \<Rightarrow> polytope \<Rightarrow> nat \<Rightarrow> error + polytope" where
  "aux_plus_Vpoly_Vpoly P1 P2 n =
     (case (polyV P1, polyV P2) of
        (Some V1, Some V2) \<Rightarrow>
          (let num_v1 = ncols V1;
               num_v2 = ncols V2;
               Vm = zeros n (num_v1 * num_v2)
           in ebind (outer_loop V1 V2 num_v1 [0..<num_v2] Vm 0) (\<lambda>(V', idx).
                Inr (Polytope_V V')))
      | _ \<Rightarrow> Inl AttributeError)"

text \<open>
  The branch of \<open>plus\<close> for two polytope operands of dimension n (lines 111 to 141).
  The prelude of the function (reordering of the operands, dispatch on precedence, the
  dimension check and \<open>n = p1.dim()\<close>) calls code that is not among the files; for two
  polytopes of equal dimension it leaves the operands as they are. The representation
  flags are read before \<open>representsa\<close> is asked.
\<close>

definition plus_polytope ::
  "representsa \<Rightarrow> converter \<Rightarrow> projector \<Rightarrow> nat \<Rightarrow> polytope \<Rightarrow> polytope \<Rightarrow> error + polytope" where
  "plus_polytope representsa constraints project n p1 p2 =
     (let tol = 1 / 10 ^ 10;
          has_v1_orig = isVRep p1;
          has_v2_orig = isVRep p2;
          has_h1_orig = isHRep p1;
          has_h2_orig = isHRep p2
      in if representsa p1 ''fullspace'' tol \<or> representsa p2 ''fullspace'' tol
         then Inr (Polytope_Inf n)
         else if representsa p1 ''emptySet'' tol \<or> representsa p2 ''emptySet'' tol
         then Inr (Polytope_empty n)
         else if representsa p1 ''origin'' tol then Inr p2
         else if representsa p2 ''origin'' tol then Inr p1
         else if has_v1_orig \<and> has_v2_orig then aux_plus_Vpoly_Vpoly p1 p2 n
         else if has_h1_orig \<and> has_h2_orig then aux_plus_Hpoly_Hpoly project p1 p2 n
         else
           ebind (constraints p1) (\<lambda>p1_H.
           ebind (constraints p2) (\<lambda>p2_H.
             aux_plus_Hpoly_Hpoly project p1_H p2_H n)))"

text \<open>
  Modelled from the spec: a stand-in for \<open>representsa\<close> in the examples. It recognises
  the canonical degenerate polytopes of section 6 of the specification in the dimension
  of the operand (the unconstrained space, \<open>0 x \<le> -1\<close>, the origin) and nothing else.
\<close>

definition pdim :: "polytope \<Rightarrow> nat" where
  "pdim P =
     (case polyA P of
        Some Am \<Rightarrow> ncols Am
      | None \<Rightarrow> (case polyV P of Some Vm \<Rightarrow> nrows Vm | None \<Rightarrow> 0))"

definition representsa_canon :: representsa where
  "representsa_canon P kind tol =
     (if kind = ''fullspace'' then P = Polytope_Inf (pdim P)
      else if kind = ''emptySet'' then P = Polytope_empty (pdim P)
      else if kind = ''origin'' then P = Polytope_origin (pdim P)
      else False)"

text \<open>
  The set of an H-polytope, \<open>A x \<le> b\<close> and \<open>Ae x = be\<close>, and the Minkowski sum of two sets
  of points.
\<close>

definition in_poly :: "polytope \<Rightarrow> real list \<Rightarrow> bool" where
  "in_poly P x =
     (list_all (\<lambda>(r, t). dot r x \<le> t) (zip (rws (the (polyA P))) (the (polyb P)))
      \<and> (case polyAe P of
           None \<Rightarrow> True
         | Some Aem \<Rightarrow> list_all (\<lambda>(r, t). dot r x = t) (zip (rws Aem) (the (polybe P)))))"

subsection \<open>Example polytopes\<close>

text \<open>
  The segment \<open>x \<le> 1\<close> cut by the hyperplane \<open>x = 0\<close> in dimension 1, and the unit box
  \<open>[-1, 1] x [-1, 1]\<close> of section 8 of the specification.
\<close>

definition P_seg :: polytope where
  "P_seg = \<lparr>polyA = Some \<lparr>nrows = 1, ncols = 1, rws = [[1]]\<rparr>, polyb = Some [1],
            polyAe = Some \<lparr>nrows = 1, ncols = 1, rws = [[1]]\<rparr>, polybe = Some [0],
            polyV = None, isHRep = True, isVRep = False\<rparr>"

text \<open>
  The interval \<open>[0, 1]\<close> without equality constraints, and the point 1 given by
  \<open>x \<le> 1\<close> and the equality \<open>x = 1\<close>; their Minkowski sum is \<open>[1, 2]\<close>. Two vertex
  polytopes: a segment and a triangle in the plane.
\<close>

definition P_interval :: polytope where
  "P_interval = \<lparr>polyA = Some \<lparr>nrows = 2, ncols = 1, rws = [[1], [- 1]]\<rparr>, polyb = Some [1, 0],
                 polyAe = None, polybe = None, polyV = None, isHRep = True, isVRep = False\<rparr>"

definition P_point :: polytope where
  "P_point = \<lparr>polyA = Some \<lparr>nrows = 1, ncols = 1, rws = [[1]]\<rparr>, polyb = Some [1],
              polyAe = Some \<lparr>nrows = 1, ncols = 1, rws = [[1]]\<rparr>, polybe = Some [1],
              polyV = None, isHRep = True, isVRep = False\<rparr>"

definition V_segment :: polytope where
  "V_segment = Polytope_V \<lparr>nrows = 2, ncols = 2, rws = [[0, 1], [0, 0]]\<rparr>"

definition V_triangle :: polytope where
  "V_triangle = Polytope_V \<lparr>nrows = 2, ncols = 3, rws = [[0, 2, 0], [0, 0, 3]]\<rparr>"

definition P_box :: polytope where
  "P_box = \<lparr>polyA = Some \<lparr>nrows = 4, ncols = 2, rws = [[1, 0], [-1, 0], [0, 1], [0, -1]]\<rparr>,
            polyb = Some [1, 1, 1, 1], polyAe = None, polybe = None,
            polyV = None, isHRep = True, isVRep = False\<rparr>"

text \<open>
  The lifted system that \<open>_aux_plus_Hpoly_Hpoly\<close> builds for the interval and the point:
  the equality row is \<open>[Ae2, 0]\<close>.
\<close>

definition lifted_point :: polytope where
  "lifted_point = Polytope_H \<lparr>nrows = 3, ncols = 2, rws = [[1, - 1], [0, 1], [0, - 1]]\<rparr> [1, 1, 0]
                    (Some \<lparr>nrows = 1, ncols = 2, rws = [[1, 0]]\<rparr>) (Some [1])"

section \<open>Verified properties\<close>

subsection \<open>Containment\<close>

lemma np_max_Max:
  assumes "xs \<noteq> []"
  shows "np_max xs = Inr (Max (set xs))"
proof (cases xs)
  case Nil
  then show ?thesis using assms by simp
next
  case (Cons a list)
  have "Max (set (a # list)) = fold max list a" by (rule Max.set_eq_fold)
  then show ?thesis using Cons by simp
qed

lemma emap_all: "(\<And>x. x \<in> set xs \<Longrightarrow> f x = Inr (g x)) \<Longrightarrow> emap f xs = Inr (map g xs)"
  by (induction xs) (simp_all add: ebind_def)

lemma matvec_bsub:
  "ncols M = length p \<Longrightarrow> length (rws M) = length v \<Longrightarrow>
   ebind (matvec M p) (\<lambda>Ap. bsub Ap v) = Inr (residuals M v p)"
  by (simp add: matvec_def bsub_def ebind_def residuals_def zip_map1 case_prod_unfold)

lemma length_residuals: "length (rws M) = length v \<Longrightarrow> length (residuals M v p) = length v"
  by (simp add: residuals_def)

lemma check_ineq_eq:
  assumes "wf_hrep P n" "polyA P = Some Am" "length p = n"
  shows "check_ineq P Am p tol st =
     Inr (nrows Am = 0 \<or> max_violation P p \<le> tol,
          if st \<and> 0 < nrows Am
          then (if max_violation P p \<le> tol then Fin 1 else Fin (spec_scaling P p))
          else PInf)"
proof (cases "0 < nrows Am")
  case False
  then show ?thesis by (simp add: check_ineq_def)
next
  case True
  from assms obtain bv where b: "polyb P = Some bv" and lb: "length bv = nrows Am"
    and wA: "wf_mat Am" and cA: "ncols Am = n"
    by (auto simp: wf_hrep_def split: option.splits)
  have lr: "length (rws Am) = length bv" using wA lb by (simp add: wf_mat_def)
  have mv: "ebind (matvec Am p) (\<lambda>Ap. bsub Ap bv) = Inr (residuals Am bv p)"
    using matvec_bsub [of Am p bv] cA assms(3) lr by simp
  have ne: "residuals Am bv p \<noteq> []"
    using length_residuals [OF lr, of p] lb True by auto
  have mx: "np_max (residuals Am bv p) = Inr (max_violation P p)"
    using np_max_Max [OF ne] by (simp add: max_violation_def assms(2) b)
  have m1: "matvec Am p = Inr (map (\<lambda>r. dot r p) (rws Am))"
    using cA assms(3) by (simp add: matvec_def)
  have m2: "bsub (map (\<lambda>r. dot r p) (rws Am)) bv = Inr (residuals Am bv p)"
    using mv by (simp add: m1 ebind_def)
  show ?thesis
    using True by (simp add: check_ineq_def m1 m2 mx b ebind_def Let_def spec_scaling_def not_less)
qed

lemma check_eq_eq:
  assumes "wf_hrep P n" "length p = n"
  shows "check_eq P p tol ic = Inr (ic \<and> (eq_present P \<longrightarrow> max_eq_violation P p \<le> tol))"
proof (cases "polyAe P")
  case None
  then show ?thesis by (simp add: check_eq_def eq_present_def)
next
  case (Some Aem)
  show ?thesis
  proof (cases "0 < nrows Aem")
    case False
    then show ?thesis using Some by (simp add: check_eq_def eq_present_def)
  next
    case True
    from assms Some obtain bev where b: "polybe P = Some bev" and lb: "length bev = nrows Aem"
      and wA: "wf_mat Aem" and cA: "ncols Aem = n"
      by (auto simp: wf_hrep_def split: option.splits)
    have lr: "length (rws Aem) = length bev" using wA lb by (simp add: wf_mat_def)
    have m1: "matvec Aem p = Inr (map (\<lambda>r. dot r p) (rws Aem))"
      using cA assms(2) by (simp add: matvec_def)
    have m2: "bsub (map (\<lambda>r. dot r p) (rws Aem)) bev = Inr (residuals Aem bev p)"
      using matvec_bsub [of Aem p bev] cA assms(2) lr by (simp add: m1 ebind_def)
    have ne: "map abs (residuals Aem bev p) \<noteq> []"
      using length_residuals [OF lr, of p] lb True by auto
    have mx: "np_max (map abs (residuals Aem bev p)) = Inr (max_eq_violation P p)"
      using np_max_Max [OF ne] by (simp add: max_eq_violation_def Some b)
    show ?thesis
      using True Some by (auto simp add: check_eq_def m1 m2 mx b ebind_def eq_present_def)
  qed
qed

lemma check_point_eq:
  assumes "wf_hrep P n" "polyA P = Some Am" "length p = n"
  shows "check_point P Am p tol st =
     Inr ((nrows Am = 0 \<or> max_violation P p \<le> tol) \<and> (eq_present P \<longrightarrow> max_eq_violation P p \<le> tol),
          if st \<and> 0 < nrows Am
          then (if max_violation P p \<le> tol then Fin 1 else Fin (spec_scaling P p))
          else PInf)"
  by (simp add: check_point_def check_ineq_eq [OF assms] check_eq_eq [OF assms(1,3)] ebind_def)

lemma length_col: "wf_mat M \<Longrightarrow> length (col M i) = nrows M"
  by (simp add: col_def wf_mat_def)

lemma contains_pointcloud_eq:
  assumes "wf_hrep P n" "polyA P = Some Am" "wf_mat (as_mat points)" "nrows (as_mat points) = n"
  shows "\<exists>res sc. contains_pointcloud P points method tol ct st = Inr (res, True, sc)
     \<and> entries res = map (\<lambda>i. (nrows Am = 0 \<or> max_violation P (col (as_mat points) i) \<le> tol)
                 \<and> (eq_present P \<longrightarrow> max_eq_violation P (col (as_mat points) i) \<le> tol)) [0..<ncols (as_mat points)]
     \<and> entries sc = map (\<lambda>i.
           if st then
             (if (nrows Am = 0 \<or> max_violation P (col (as_mat points) i) \<le> tol)
                 \<and> (eq_present P \<longrightarrow> max_eq_violation P (col (as_mat points) i) \<le> tol) then Fin 1
              else if nrows Am = 0 then PInf
              else if max_violation P (col (as_mat points) i) \<le> tol then Fin 1
              else Fin (spec_scaling P (col (as_mat points) i)))
           else PInf) [0..<ncols (as_mat points)]"
proof -
  let ?pts = "as_mat points"
  let ?k = "ncols ?pts"
  let ?g = "\<lambda>i. ((nrows Am = 0 \<or> max_violation P (col ?pts i) \<le> tol) \<and> (eq_present P \<longrightarrow> max_eq_violation P (col ?pts i) \<le> tol),
          if st \<and> 0 < nrows Am
          then (if max_violation P (col ?pts i) \<le> tol then Fin 1 else Fin (spec_scaling P (col ?pts i)))
          else PInf)"
  have em: "emap (\<lambda>i. check_point P Am (col ?pts i) tol st) [0..<?k] = Inr (map ?g [0..<?k])"
  proof (rule emap_all)
    fix i
    have "length (col ?pts i) = n" using length_col [OF assms(3)] assms(4) by simp
    then show "check_point P Am (col ?pts i) tol st = Inr (?g i)"
      using check_point_eq [OF assms(1,2), of "col ?pts i" tol st] by simp
  qed
  show ?thesis
  proof (cases "?k = 1")
    case True
    then have u: "[0..<?k] = [0]" by simp
    have em1: "emap (\<lambda>i. check_point P Am (col ?pts i) tol st) [0] = Inr [?g 0]"
      using em unfolding u by simp
    have "contains_pointcloud P points method tol ct st =
            Inr (Scalar (fst (?g 0)), True,
                 Scalar (if st then (if fst (?g 0) then xmin (snd (?g 0)) (Fin 1) else snd (?g 0)) else snd (?g 0)))"
      unfolding contains_pointcloud_def Let_def assms(2) option.case u em1 ebind_def sum.case
      using True by simp
    then show ?thesis
      unfolding u by (auto simp add: entries_def)
  next
    case False
    then show ?thesis
      by (auto simp add: contains_pointcloud_def Let_def assms(2) em ebind_def entries_def
            map2_map_map comp_def intro!: nth_equalityI)
  qed
qed


lemma contains_pointcloud_cert:
  "contains_pointcloud P points method tol ct st = Inr (res, cert, sc) \<Longrightarrow> cert"
  by (auto simp: contains_pointcloud_def Let_def ebind_def split: option.splits sum.splits if_splits)

text \<open>
  C1. For a polytope with an inequality system (A, b) of at least one row and a point
  cloud of matching dimension, the halfspace check reports the point of column i as
  contained exactly when the largest inequality residual is at most the tolerance and,
  where equality constraints are present, the largest absolute equality residual is too.
\<close>

theorem C1_halfspace_containment:
  assumes "wf_hrep P n" "has_ineq P" "wf_mat (as_mat points)" "nrows (as_mat points) = n"
  shows "\<exists>res sc. contains_pointcloud P points method tol certToggle scalingToggle = Inr (res, True, sc)
           \<and> length (entries res) = ncols (as_mat points)
           \<and> (\<forall>i < ncols (as_mat points). entries res ! i = spec_contained P (col (as_mat points) i) tol)"
proof -
  from assms(1,2) obtain Am where A: "polyA P = Some Am" and pos: "0 < nrows Am"
    by (auto simp: wf_hrep_def has_ineq_def split: option.splits)
  from contains_pointcloud_eq [OF assms(1) A assms(3,4), of "method" "tol" "certToggle" "scalingToggle"]
  obtain res sc where r: "contains_pointcloud P points method tol certToggle scalingToggle = Inr (res, True, sc)"
    and e: "entries res = map (\<lambda>i. (nrows Am = 0 \<or> max_violation P (col (as_mat points) i) \<le> tol)
                 \<and> (eq_present P \<longrightarrow> max_eq_violation P (col (as_mat points) i) \<le> tol)) [0..<ncols (as_mat points)]"
    by blast
  show ?thesis
    using r e pos by (simp add: spec_contained_def)
qed

theorem C1_halfspace_containment_witness:
  "wf_hrep P_box 2 \<and> has_ineq P_box
   \<and> wf_mat (as_mat (Arr2 \<lparr>nrows = 2, ncols = 2, rws = [[0, 2], [0, 0]]\<rparr>))
   \<and> nrows (as_mat (Arr2 \<lparr>nrows = 2, ncols = 2, rws = [[0, 2], [0, 0]]\<rparr>)) = 2
   \<and> (\<exists>res sc. contains_pointcloud P_box (Arr2 \<lparr>nrows = 2, ncols = 2, rws = [[0, 2], [0, 0]]\<rparr>)
                ''exact'' (1 / 10 ^ 12) True False = Inr (res, True, sc)
           \<and> length (entries res) = ncols (as_mat (Arr2 \<lparr>nrows = 2, ncols = 2, rws = [[0, 2], [0, 0]]\<rparr>))
           \<and> (\<forall>i < ncols (as_mat (Arr2 \<lparr>nrows = 2, ncols = 2, rws = [[0, 2], [0, 0]]\<rparr>)).
                 entries res ! i
                 = spec_contained P_box (col (as_mat (Arr2 \<lparr>nrows = 2, ncols = 2, rws = [[0, 2], [0, 0]]\<rparr>)) i) (1 / 10 ^ 12)))"
proof -
  have h1: "wf_hrep P_box 2" by (simp add: wf_hrep_def P_box_def wf_mat_def)
  have h2: "has_ineq P_box" by (simp add: has_ineq_def P_box_def)
  have h3: "wf_mat (as_mat (Arr2 \<lparr>nrows = 2, ncols = 2, rws = [[0, 2], [0, 0]]\<rparr>))"
    by (simp add: as_mat_def wf_mat_def)
  have h4: "nrows (as_mat (Arr2 \<lparr>nrows = 2, ncols = 2, rws = [[0, 2], [0, 0]]\<rparr>)) = 2"
    by (simp add: as_mat_def)
  show ?thesis
    using h1 h2 h3 h4 C1_halfspace_containment [OF h1 h2 h3 h4, of "''exact''" "1 / 10 ^ 12" True False]
    by simp
qed


text \<open>
  C7 (as amended). With scaling requested, every contained point reports the scaling
  factor 1, and every point whose largest inequality residual exceeds the tolerance is
  not contained and reports \<open>1 + maxViolation / ||b||\<close> when the norm exceeds \<open>1e-9\<close> and
  \<open>1 + maxViolation\<close> otherwise.
\<close>

theorem C7_scaling:
  assumes "wf_hrep P n" "wf_mat (as_mat points)" "nrows (as_mat points) = n"
  shows "\<exists>res sc. contains_pointcloud P points method tol certToggle True = Inr (res, True, sc)
           \<and> length (entries res) = ncols (as_mat points)
           \<and> length (entries sc) = ncols (as_mat points)
           \<and> (\<forall>i < ncols (as_mat points).
                 (entries res ! i \<longrightarrow> entries sc ! i = Fin 1)
               \<and> (has_ineq P \<and> tol < max_violation P (col (as_mat points) i) \<longrightarrow>
                    \<not> entries res ! i \<and> entries sc ! i = Fin (spec_scaling P (col (as_mat points) i))))"
proof -
  from assms(1) obtain Am where A: "polyA P = Some Am"
    by (auto simp: wf_hrep_def split: option.splits)
  have hi: "has_ineq P = (0 < nrows Am)" by (simp add: has_ineq_def A)
  from contains_pointcloud_eq [OF assms(1) A assms(2,3), of "method" "tol" "certToggle" True]
  obtain res sc where r: "contains_pointcloud P points method tol certToggle True = Inr (res, True, sc)"
    and e: "entries res = map (\<lambda>i. (nrows Am = 0 \<or> max_violation P (col (as_mat points) i) \<le> tol)
                 \<and> (eq_present P \<longrightarrow> max_eq_violation P (col (as_mat points) i) \<le> tol)) [0..<ncols (as_mat points)]"
    and f: "entries sc = map (\<lambda>i.
           if True then
             (if (nrows Am = 0 \<or> max_violation P (col (as_mat points) i) \<le> tol)
                 \<and> (eq_present P \<longrightarrow> max_eq_violation P (col (as_mat points) i) \<le> tol) then Fin 1
              else if nrows Am = 0 then PInf
              else if max_violation P (col (as_mat points) i) \<le> tol then Fin 1
              else Fin (spec_scaling P (col (as_mat points) i)))
           else PInf) [0..<ncols (as_mat points)]"
    by blast
  show ?thesis
    using r e f hi by auto
qed

theorem C7_scaling_witness:
  "wf_hrep P_seg 1
   \<and> wf_mat (as_mat (Arr2 \<lparr>nrows = 1, ncols = 2, rws = [[2, 0]]\<rparr>))
   \<and> nrows (as_mat (Arr2 \<lparr>nrows = 1, ncols = 2, rws = [[2, 0]]\<rparr>)) = 1
   \<and> has_ineq P_seg \<and> 1 / 10 ^ 12 < max_violation P_seg [2]
   \<and> contains_pointcloud P_seg (Arr2 \<lparr>nrows = 1, ncols = 2, rws = [[2, 0]]\<rparr>) ''exact'' (1 / 10 ^ 12) True True
       = Inr (Array [False, True], True, Array [Fin 2, Fin 1])
   \<and> (\<exists>res sc. contains_pointcloud P_seg (Arr2 \<lparr>nrows = 1, ncols = 2, rws = [[2, 0]]\<rparr>)
                ''exact'' (1 / 10 ^ 12) True True = Inr (res, True, sc)
           \<and> length (entries res) = ncols (as_mat (Arr2 \<lparr>nrows = 1, ncols = 2, rws = [[2, 0]]\<rparr>))
           \<and> length (entries sc) = ncols (as_mat (Arr2 \<lparr>nrows = 1, ncols = 2, rws = [[2, 0]]\<rparr>))
           \<and> (\<forall>i < ncols (as_mat (Arr2 \<lparr>nrows = 1, ncols = 2, rws = [[2, 0]]\<rparr>)).
                 (entries res ! i \<longrightarrow> entries sc ! i = Fin 1)
               \<and> (has_ineq P_seg
                    \<and> 1 / 10 ^ 12 < max_violation P_seg (col (as_mat (Arr2 \<lparr>nrows = 1, ncols = 2, rws = [[2, 0]]\<rparr>)) i) \<longrightarrow>
                    \<not> entries res ! i
                    \<and> entries sc ! i = Fin (spec_scaling P_seg (col (as_mat (Arr2 \<lparr>nrows = 1, ncols = 2, rws = [[2, 0]]\<rparr>)) i)))))"
proof -
  have h1: "wf_hrep P_seg 1" by (simp add: wf_hrep_def P_seg_def wf_mat_def)
  have h2: "wf_mat (as_mat (Arr2 \<lparr>nrows = 1, ncols = 2, rws = [[2, 0]]\<rparr>))"
    by (simp add: as_mat_def wf_mat_def)
  have h3: "nrows (as_mat (Arr2 \<lparr>nrows = 1, ncols = 2, rws = [[2, 0]]\<rparr>)) = 1"
    by (simp add: as_mat_def)
  have h4: "has_ineq P_seg \<and> 1 / 10 ^ 12 < max_violation P_seg [2]"
    by (simp add: has_ineq_def P_seg_def max_violation_def residuals_def dot_def)
  have h5: "contains_pointcloud P_seg (Arr2 \<lparr>nrows = 1, ncols = 2, rws = [[2, 0]]\<rparr>) ''exact'' (1 / 10 ^ 12) True True
       = Inr (Array [False, True], True, Array [Fin 2, Fin 1])"
    by (simp add: contains_pointcloud_def as_mat_def P_seg_def Let_def upt_rec ebind_def
        check_point_def check_ineq_def check_eq_def matvec_def bsub_def dot_def col_def norm2_def)
  show ?thesis
    using h1 h2 h3 h4 h5 C7_scaling [OF h1 h2 h3, of "''exact''" "1 / 10 ^ 12" True]
    by simp
qed

text \<open>
  C7 (as stated) fails at a point that satisfies the inequality \<open>x \<le> 1\<close> and violates
  the equality \<open>x = 0\<close>: the point 1/2 is not contained, the formula of the claim gives
  \<open>1 + (-1/2) / 1 = 1/2\<close>, and the check reports the scaling factor 1. The scaling
  factor is set from the inequality residuals before the equality constraints are
  looked at; what a point rejected by an equality constraint alone reports is not part of
  the amended claim.
\<close>

theorem C7_equality_violation_counterexample:
  "contains_pointcloud P_seg (Arr1 [1 / 2]) ''exact'' (1 / 10 ^ 12) True True
     = Inr (Scalar False, True, Scalar (Fin 1))
   \<and> spec_scaling P_seg [1 / 2] = 1 / 2
   \<and> Fin 1 \<noteq> Fin (spec_scaling P_seg [1 / 2])"
  by (simp add: contains_pointcloud_def as_mat_def reshape_col_def P_seg_def Let_def upt_rec ebind_def
        check_point_def check_ineq_def check_eq_def matvec_def bsub_def dot_def col_def
        spec_scaling_def norm2_def max_violation_def residuals_def)

text \<open>
  C9. On every path of \<open>contains_\<close> that returns, the certificate is True: the array
  path, the vertex path, the fallback to the centre when the vertex path fails (which is
  then the point-cloud check of the centre), and the default, which reports not contained
  with scaling \<open>inf\<close>.
\<close>

theorem C9_certificate_true:
  "(contains_polytope P S method tol maxEval certToggle scalingToggle = Inr (res, cert, sc) \<longrightarrow> cert)
   \<and> contains_polytope P (SetObj NoAttr NoAttr) method tol maxEval certToggle scalingToggle
       = Inr (Scalar False, True, Scalar PInf)
   \<and> contains_polytope P (SetObj Raises (Returns (Some ce))) method tol maxEval certToggle scalingToggle
       = contains_pointcloud P ce method tol certToggle scalingToggle"
proof -
  have c: "cert" if "contains_polytope P S method tol maxEval certToggle scalingToggle = Inr (res, cert, sc)"
    using that
    by (auto simp: contains_polytope_def split: setarg.splits attr.splits option.splits sum.splits
          dest: contains_pointcloud_cert)
  have d: "contains_polytope P (SetObj NoAttr NoAttr) method tol maxEval certToggle scalingToggle
       = Inr (Scalar False, True, Scalar PInf)"
    by (simp add: contains_polytope_def)
  have f: "contains_polytope P (SetObj Raises (Returns (Some ce))) method tol maxEval certToggle scalingToggle
       = contains_pointcloud P ce method tol certToggle scalingToggle"
    by (simp add: contains_polytope_def)
  from c d f show ?thesis by blast
qed

theorem C9_certificate_true_witness:
  "contains_polytope P_seg (SetObj Raises (Returns (Some (Arr1 [1 / 2])))) ''exact'' (1 / 10 ^ 12) 0 True False
     = Inr (Scalar False, True, Scalar PInf)
   \<and> fst (snd (Scalar False, True, Scalar PInf))
   \<and> contains_polytope P_seg (SetObj NoAttr NoAttr) ''exact'' (1 / 10 ^ 12) 0 True False
       = Inr (Scalar False, True, Scalar PInf)
   \<and> contains_polytope P_seg (SetObj Raises (Returns (Some (Arr1 [1 / 2])))) ''exact'' (1 / 10 ^ 12) 0 True False
       = contains_pointcloud P_seg (Arr1 [1 / 2]) ''exact'' (1 / 10 ^ 12) True False"
proof -
  have e: "contains_polytope P_seg (SetObj Raises (Returns (Some (Arr1 [1 / 2])))) ''exact'' (1 / 10 ^ 12) 0 True False
     = Inr (Scalar False, True, Scalar PInf)"
    by (simp add: contains_polytope_def contains_pointcloud_def as_mat_def reshape_col_def P_seg_def
        Let_def upt_rec ebind_def check_point_def check_ineq_def check_eq_def matvec_def bsub_def
        dot_def col_def)
  show ?thesis
    using e C9_certificate_true [of P_seg "SetObj Raises (Returns (Some (Arr1 [1 / 2])))" "''exact''"
        "1 / 10 ^ 12" 0 True False "Scalar False" True "Scalar PInf" "Arr1 [1 / 2]"]
    by simp
qed

subsection \<open>Box enclosure\<close>

lemma box_loop_upt:
  "j \<le> n \<Longrightarrow> length ub = n \<Longrightarrow> length lb = n \<Longrightarrow>
   box_loop sf Am bv Aem bev n [j..<n] ub lb =
     (if \<exists>i. j \<le> i \<and> i < n \<and> sf Am bv Aem bev (unitvector (i + 1) n) ''upper'' = MInf then None
      else Some (take j ub @ map (\<lambda>i. sf Am bv Aem bev (unitvector (i + 1) n) ''upper'') [j..<n],
                 take j lb @ map (\<lambda>i. sf Am bv Aem bev (unitvector (i + 1) n) ''lower'') [j..<n]))"
proof (induction "n - j" arbitrary: j ub lb)
  case 0
  then show ?case by simp
next
  case (Suc k)
  then have jn: "j < n" by simp
  let ?U = "\<lambda>i. sf Am bv Aem bev (unitvector (i + 1) n) ''upper''"
  let ?L = "\<lambda>i. sf Am bv Aem bev (unitvector (i + 1) n) ''lower''"
  have u: "[j..<n] = j # [Suc j..<n]" using jn by (simp add: upt_conv_Cons)
  show ?case
  proof (cases "?U j = MInf")
    case True
    then have "\<exists>i. j \<le> i \<and> i < n \<and> ?U i = MInf" using jn by blast
    then show ?thesis using True jn Suc.prems by (simp add: u Let_def del: upt_Suc)
  next
    case False
    have k: "k = n - Suc j" using Suc.hyps(2) by simp
    have ih: "box_loop sf Am bv Aem bev n [Suc j..<n] (ub[j := ?U j]) (lb[j := ?L j]) =
      (if \<exists>i. Suc j \<le> i \<and> i < n \<and> ?U i = MInf then None
       else Some (take (Suc j) (ub[j := ?U j]) @ map ?U [Suc j..<n],
                  take (Suc j) (lb[j := ?L j]) @ map ?L [Suc j..<n]))"
      using Suc.hyps(1) [OF k, of "ub[j := ?U j]" "lb[j := ?L j]"] jn Suc.prems by simp
    have ex: "(\<exists>i. j \<le> i \<and> i < n \<and> ?U i = MInf) = (\<exists>i. Suc j \<le> i \<and> i < n \<and> ?U i = MInf)"
      using False by (metis Suc_leD Suc_leI le_neq_implies_less)
    have t1: "take (Suc j) (ub[j := ?U j]) = take j ub @ [?U j]"
      using jn Suc.prems by (simp add: take_Suc_conv_app_nth)
    have t2: "take (Suc j) (lb[j := ?L j]) = take j lb @ [?L j]"
      using jn Suc.prems by (simp add: take_Suc_conv_app_nth)
    have step: "box_loop sf Am bv Aem bev n [j..<n] ub lb
        = box_loop sf Am bv Aem bev n [Suc j..<n] (ub[j := ?U j]) (lb[j := ?L j])"
      using False jn Suc.prems by (simp add: u Let_def del: upt_Suc)
    show ?thesis
      unfolding step ih ex t1 t2 by (auto simp add: u simp del: upt_Suc)
  qed
qed

text \<open>
  C5. The box enclosure asks for the upper and lower support value along each of the n
  standard basis directions. If some upper value is \<open>-inf\<close> it returns a zero-row system
  (no row, n columns, empty offset) flagged empty; otherwise it returns \<open>A = [I; -I]\<close>,
  \<open>b = [ub; -lb]\<close> with the flag False.
\<close>

theorem C5_box_enclosure:
  "priv_box_H sf Am bv Aem bev n =
     (if \<exists>i < n. sf Am bv Aem bev (unitvector (i + 1) n) ''upper'' = MInf
      then Inr (\<lparr>nrows = 0, ncols = n, rws = []\<rparr>, [], True)
      else Inr (\<lparr>nrows = 2 * n, ncols = n, rws = rws (eye n) @ rws (mat_neg (eye n))\<rparr>,
                map (\<lambda>i. sf Am bv Aem bev (unitvector (i + 1) n) ''upper'') [0..<n]
                  @ map (\<lambda>i. xneg (sf Am bv Aem bev (unitvector (i + 1) n) ''lower'')) [0..<n],
                False))"
proof -
  have l: "box_loop sf Am bv Aem bev n [0..<n] (replicate n PInf) (replicate n MInf) =
     (if \<exists>i. 0 \<le> i \<and> i < n \<and> sf Am bv Aem bev (unitvector (i + 1) n) ''upper'' = MInf then None
      else Some (take 0 (replicate n PInf) @ map (\<lambda>i. sf Am bv Aem bev (unitvector (i + 1) n) ''upper'') [0..<n],
                 take 0 (replicate n MInf) @ map (\<lambda>i. sf Am bv Aem bev (unitvector (i + 1) n) ''lower'') [0..<n]))"
    by (rule box_loop_upt) simp_all
  have v: "vstack (eye n) (mat_neg (eye n))
      = Inr \<lparr>nrows = 2 * n, ncols = n, rws = rws (eye n) @ rws (mat_neg (eye n))\<rparr>"
    by (simp add: vstack_def eye_def mat_neg_def)
  show ?thesis
    unfolding priv_box_H_def Let_def l v by (simp add: ebind_def comp_def)
qed

theorem C5_box_enclosure_witness:
  "priv_box_H supportFunc_unit_box (zeros 0 2) [] (zeros 0 2) [] 2
     = Inr (\<lparr>nrows = 4, ncols = 2, rws = [[1, 0], [0, 1], [-1, 0], [0, -1]]\<rparr>,
            [Fin 1, Fin 1, Fin 1, Fin 1], False)
   \<and> priv_box_H supportFunc_infeasible (zeros 1 2) [-1] (zeros 0 2) [] 2
     = Inr (\<lparr>nrows = 0, ncols = 2, rws = []\<rparr>, [], True)"
proof -
  have u: "[0..<2] = [0, Suc 0]" by (simp add: upt_rec numeral_2_eq_2)
  have a: "\<not> (\<exists>i<2. supportFunc_unit_box (zeros 0 2) [] (zeros 0 2) [] (unitvector (i + 1) 2) ''upper'' = MInf)"
    by (simp add: supportFunc_unit_box_def)
  have b: "\<exists>i<2. supportFunc_infeasible (zeros 1 2) [-1] (zeros 0 2) [] (unitvector (i + 1) 2) ''upper'' = MInf"
    by (auto simp add: supportFunc_infeasible_def intro: exI [of _ 0])
  show ?thesis
    using C5_box_enclosure [of supportFunc_unit_box "zeros 0 2" "[]" "zeros 0 2" "[]" 2]
      C5_box_enclosure [of supportFunc_infeasible "zeros 1 2" "[-1]" "zeros 0 2" "[]" 2]
    unfolding if_not_P [OF a] if_P [OF b]
    by (simp add: u supportFunc_unit_box_def unitvector_def eye_def mat_neg_def)
qed


subsection \<open>Intersection by averaging\<close>

text \<open>
  C10. A call whose zonotope-list argument is not a list or is empty, whose method (when
  given) is none of normGen, radius, volume, whose closed-form flag (when given) is not a
  boolean, or whose weight sum (when given) is not a number or is negative, raises
  ValueError; the optimiser is never consulted and no zonotope is built. An argument
  that is omitted (None) takes its default before the checks.
\<close>

theorem C10_validation:
  "\<not> is_list Z_cell \<or> Z_cell = PyList []
     \<or> (method \<noteq> PyNone \<and> method \<notin> {PyStr ''normGen'', PyStr ''radius'', PyStr ''volume''})
     \<or> (closedform \<noteq> PyNone \<and> \<not> is_bool closedform)
     \<or> (sumofw \<noteq> PyNone \<and> (\<not> is_number sumofw \<or> num_val sumofw < 0))
   \<Longrightarrow> priv_andAveraging minimize Z_cell method closedform sumofw = Inl ValueError"
  by (auto simp: priv_andAveraging_def validate_args_def ebind_def Let_def)

theorem C10_validation_witness:
  "num_val (PyFloat (- 1)) < 0
   \<and> priv_andAveraging (\<lambda>zs m w0. w0) (PyList [Z_example]) (PyStr ''normGen'') (PyBool True) (PyFloat (- 1))
       = Inl ValueError
   \<and> priv_andAveraging (\<lambda>zs m w0. w0) (PyList []) PyNone PyNone PyNone = Inl ValueError
   \<and> priv_andAveraging (\<lambda>zs m w0. w0) (PyList [Z_example]) (PyStr ''best'') PyNone PyNone = Inl ValueError
   \<and> priv_andAveraging (\<lambda>zs m w0. w0) (PyList [Z_example]) PyNone (PyInt 1) PyNone = Inl ValueError"
  using C10_validation [of "PyList [Z_example]" "PyStr ''normGen''" "PyBool True" "PyFloat (- 1)" "\<lambda>zs m w0. w0"]
    C10_validation [of "PyList []" PyNone PyNone PyNone "\<lambda>zs m w0. w0"]
    C10_validation [of "PyList [Z_example]" "PyStr ''best''" PyNone PyNone "\<lambda>zs m w0. w0"]
    C10_validation [of "PyList [Z_example]" PyNone "PyInt 1" PyNone "\<lambda>zs m w0. w0"]
  by simp

lemma dot_Nil [simp]: "dot [] x = 0" "dot r [] = 0"
  by (simp_all add: dot_def)

lemma dot_Cons [simp]: "dot (a # r) (x # xs) = a * x + dot r xs"
  by (simp add: dot_def)

lemma dot_append: "length a = length x \<Longrightarrow> dot (a @ b) (x @ y) = dot a x + dot b y"
  by (induction a x rule: list_induct2) simp_all

lemma replicate_numeral_simp: "replicate (numeral k) x = x # replicate (pred_numeral k) x"
  by (simp add: numeral_eq_Suc)

lemma closed_form_weights_pair:
  assumes "trace_GGt (generators Z) \<noteq> 0"
  shows "closed_form_weights [Z, Z] 1 = Inr [1 / 2, 1 / 2]"
  using assms by (simp add: closed_form_weights_def Let_def)

lemma catWeighted_pair_shape:
  assumes "wf_mat (center Z)" "ncols (center Z) = 1" "nrows (generators Z) = nrows (center Z)"
  shows "\<exists>C Gm. catWeighted [Z, Z] [1 / 2, 1 / 2] = Inr (Arr2 C, Gm)
           \<and> nrows C = nrows (center Z) \<and> ncols C = nrows (center Z)"
  using assms
  by (simp add: catWeighted_def zdim_def Let_def ebind_def hconcat_def smult_def zeros_def
      np_add_def as2d_def bdim_def nd_div_def sdiv_def)

text \<open>
  C6, evaluated at the zonotope of the docstring example (dimension 2) repeated twice,
  with method normGen, the closed form and weight sum 1. The closed-form weights are
  (1/2, 1/2) and the generators are \<open>[G/2 | G/2]\<close>, as the claim says. The centre that
  \<open>_catWeighted\<close> returns is the 2 by 2 array with rows (2, 2) and (1, 1), not the
  column (2, 1) of Z: the running centre starts as the vector \<open>np.zeros(n)\<close>, and adding
  the n by 1 centre column broadcasts it to n by n. By \<open>catWeighted_pair_shape\<close> the
  returned centre has n columns for every zonotope with a centre column of n entries.
\<close>

theorem C6_centre_broadcast:
  "closed_form_weights [Z_example, Z_example] 1 = Inr [1 / 2, 1 / 2]
   \<and> catWeighted [Z_example, Z_example] [1 / 2, 1 / 2]
       = Inr (Arr2 \<lparr>nrows = 2, ncols = 2, rws = [[2, 2], [1, 1]]\<rparr>,
              \<lparr>nrows = 2, ncols = 4, rws = [[1, 1, 1, 1], [1, 0, 1, 0]]\<rparr>)
   \<and> priv_andAveraging minimize (PyList [Z_example, Z_example]) (PyStr ''normGen'') (PyBool True) (PyFloat 1)
       = Inr \<lparr>precedence = 110, center = \<lparr>nrows = 2, ncols = 2, rws = [[2, 2], [1, 1]]\<rparr>,
              generators = \<lparr>nrows = 2, ncols = 4, rws = [[1, 1, 1, 1], [1, 0, 1, 0]]\<rparr>\<rparr>
   \<and> center Z_example = \<lparr>nrows = 2, ncols = 1, rws = [[2], [1]]\<rparr>"
proof -
  have t: "trace_GGt (generators Z_example) \<noteq> 0"
    by (simp add: trace_GGt_def Z_example_def)
  have w: "closed_form_weights [Z_example, Z_example] 1 = Inr [1 / 2, 1 / 2]"
    by (rule closed_form_weights_pair [OF t])
  have u: "[0..<2] = [0, 1]" by (simp add: upt_rec)
  have c: "catWeighted [Z_example, Z_example] [1 / 2, 1 / 2]
       = Inr (Arr2 \<lparr>nrows = 2, ncols = 2, rws = [[2, 2], [1, 1]]\<rparr>,
              \<lparr>nrows = 2, ncols = 4, rws = [[1, 1, 1, 1], [1, 0, 1, 0]]\<rparr>)"
    by (simp add: catWeighted_def zdim_def Z_example_def Let_def ebind_def hconcat_def smult_def
        zeros_def np_add_def as2d_def bdim_def pick_def nd_div_def sdiv_def u replicate_numeral_simp)
  have v: "validate_args (PyList [Z_example, Z_example]) (PyStr ''normGen'') (PyBool True) (PyFloat 1)
      = Inr ([Z_example, Z_example], ''normGen'', True, 1)"
    by (simp add: validate_args_def)
  have r: "priv_andAveraging minimize (PyList [Z_example, Z_example]) (PyStr ''normGen'') (PyBool True) (PyFloat 1)
       = Inr \<lparr>precedence = 110, center = \<lparr>nrows = 2, ncols = 2, rws = [[2, 2], [1, 1]]\<rparr>,
              generators = \<lparr>nrows = 2, ncols = 4, rws = [[1, 1, 1, 1], [1, 0, 1, 0]]\<rparr>\<rparr>"
    by (simp add: priv_andAveraging_def v w c ebind_def Zonotope_def)
  have z: "center Z_example = \<lparr>nrows = 2, ncols = 1, rws = [[2], [1]]\<rparr>"
    by (simp add: Z_example_def)
  from w c r z show ?thesis by blast
qed

subsection \<open>Minkowski sum\<close>


lemma set_col_ok:
  assumes "wf_mat Vm" "idx < ncols Vm" "length v = nrows Vm"
  shows "\<exists>V'. set_col Vm idx v = Inr V' \<and> wf_mat V' \<and> nrows V' = nrows Vm \<and> ncols V' = ncols Vm
           \<and> (\<forall>k. col V' k = (if k = idx then v else col Vm k))"
proof -
  let ?V' = "Vm\<lparr>rws := map2 (\<lambda>row x. row[idx := x]) (rws Vm) v\<rparr>"
  have lr: "length (rws Vm) = length v" and rl: "\<And>r. r \<in> set (rws Vm) \<Longrightarrow> length r = ncols Vm"
    using assms by (auto simp: wf_mat_def list_all_iff)
  have e: "set_col Vm idx v = Inr ?V'" using assms by (simp add: set_col_def)
  have w: "wf_mat ?V'"
    using assms lr rl by (auto simp: wf_mat_def list_all_iff dest: set_zip_leftD)
  have c: "col ?V' k = (if k = idx then v else col Vm k)" for k
  proof (rule nth_equalityI)
    show "length (col ?V' k) = length (if k = idx then v else col Vm k)"
      using lr by (simp add: col_def)
  next
    fix t assume "t < length (col ?V' k)"
    then have t: "t < length v" "t < length (rws Vm)" using lr by (simp_all add: col_def)
    then have "rws Vm ! t \<in> set (rws Vm)" by simp
    then have "idx < length (rws Vm ! t)" using rl assms(2) by simp
    then show "col ?V' k ! t = (if k = idx then v else col Vm k) ! t"
      using t by (simp add: col_def)
  qed
  show ?thesis using e w c by (intro exI [of _ ?V']) simp
qed

lemma inner_loop_ok:
  assumes "wf_mat V1" "nrows V1 = n" "wf_mat V2" "nrows V2 = n"
  shows "wf_mat Vm \<Longrightarrow> nrows Vm = n \<Longrightarrow> idx + length js \<le> ncols Vm \<Longrightarrow>
     \<exists>V'. inner_loop V1 V2 i js Vm idx = Inr (V', idx + length js) \<and> wf_mat V' \<and> nrows V' = n
        \<and> ncols V' = ncols Vm
        \<and> (\<forall>k. col V' k = (if idx \<le> k \<and> k < idx + length js
                              then map2 (+) (col V1 (js ! (k - idx))) (col V2 i) else col Vm k))"
proof (induction js arbitrary: Vm idx)
  case Nil
  then show ?case by auto
next
  case (Cons j js)
  let ?v = "map2 (+) (col V1 j) (col V2 i)"
  have lv: "length ?v = nrows Vm"
    using assms Cons.prems by (simp add: length_col)
  have b: "badd (col V1 j) (col V2 i) = Inr ?v"
    using assms by (simp add: badd_def length_col)
  from set_col_ok [OF Cons.prems(1) _ lv, of idx] Cons.prems(3)
  obtain W where W: "set_col Vm idx ?v = Inr W" "wf_mat W" "nrows W = nrows Vm" "ncols W = ncols Vm"
    and cW: "\<And>k. col W k = (if k = idx then ?v else col Vm k)"
    by auto
  have "idx + 1 + length js \<le> ncols W" using Cons.prems(3) W(4) by simp
  from Cons.IH [OF W(2) _ this] W(3) Cons.prems(2)
  obtain V' where V': "inner_loop V1 V2 i js W (idx + 1) = Inr (V', idx + 1 + length js)"
    "wf_mat V'" "nrows V' = n" "ncols V' = ncols W"
    and cV: "\<And>k. col V' k = (if idx + 1 \<le> k \<and> k < idx + 1 + length js
                              then map2 (+) (col V1 (js ! (k - (idx + 1)))) (col V2 i) else col W k)"
    by auto
  have r: "inner_loop V1 V2 i (j # js) Vm idx = Inr (V', idx + length (j # js))"
    using b W(1) V'(1) by (simp add: ebind_def)
  have c: "col V' k = (if idx \<le> k \<and> k < idx + length (j # js)
                              then map2 (+) (col V1 ((j # js) ! (k - idx))) (col V2 i) else col Vm k)" for k
  proof (cases "k = idx")
    case True
    then show ?thesis by (simp add: cV cW)
  next
    case False
    then show ?thesis
      by (cases "idx < k") (auto simp add: cV cW nth_Cons' Suc_diff_Suc)
  qed
  show ?case
    using r V'(2,3,4) W(4) c by (intro exI [of _ V']) simp
qed

lemma outer_loop_ok:
  assumes "wf_mat V1" "nrows V1 = n" "wf_mat V2" "nrows V2 = n"
  shows "wf_mat Vm \<Longrightarrow> nrows Vm = n \<Longrightarrow> idx + length is * num_v1 \<le> ncols Vm \<Longrightarrow>
     \<exists>V'. outer_loop V1 V2 num_v1 is Vm idx = Inr (V', idx + length is * num_v1) \<and> wf_mat V'
        \<and> nrows V' = n \<and> ncols V' = ncols Vm
        \<and> (\<forall>k<idx. col V' k = col Vm k)
        \<and> (\<forall>a<length is. \<forall>j<num_v1.
              col V' (idx + a * num_v1 + j) = map2 (+) (col V1 j) (col V2 (is ! a)))"
proof (induction "is" arbitrary: Vm idx)
  case Nil
  then show ?case by simp
next
  case (Cons i "is")
  have le1: "idx + length [0..<num_v1] \<le> ncols Vm" using Cons.prems(3) by simp
  from inner_loop_ok [OF assms Cons.prems(1,2) le1, of i]
  obtain W where W: "inner_loop V1 V2 i [0..<num_v1] Vm idx = Inr (W, idx + num_v1)"
    "wf_mat W" "nrows W = n" "ncols W = ncols Vm"
    and cW: "\<And>k. col W k = (if idx \<le> k \<and> k < idx + num_v1
                              then map2 (+) (col V1 ([0..<num_v1] ! (k - idx))) (col V2 i) else col Vm k)"
    by auto
  have le2: "idx + num_v1 + length is * num_v1 \<le> ncols W" using Cons.prems(3) W(4) by simp
  from Cons.IH [OF W(2,3) le2]
  obtain V' where V': "outer_loop V1 V2 num_v1 is W (idx + num_v1) = Inr (V', idx + num_v1 + length is * num_v1)"
    "wf_mat V'" "nrows V' = n" "ncols V' = ncols W"
    and lo: "\<And>k. k < idx + num_v1 \<Longrightarrow> col V' k = col W k"
    and hi: "\<And>a j. a < length is \<Longrightarrow> j < num_v1 \<Longrightarrow>
              col V' (idx + num_v1 + a * num_v1 + j) = map2 (+) (col V1 j) (col V2 (is ! a))"
    by auto
  have r: "outer_loop V1 V2 num_v1 (i # is) Vm idx = Inr (V', idx + length (i # is) * num_v1)"
    using W(1) V'(1) by (simp add: ebind_def add.assoc)
  have c1: "col V' k = col Vm k" if "k < idx" for k
    using that lo [of k] cW [of k] by simp
  have c2: "col V' (idx + a * num_v1 + j) = map2 (+) (col V1 j) (col V2 ((i # is) ! a))"
    if "a < length (i # is)" "j < num_v1" for a j
  proof (cases a)
    case 0
    then show ?thesis using that(2) lo [of "idx + j"] cW [of "idx + j"] by simp
  next
    case (Suc a')
    then have "a' < length is" using that(1) by simp
    from hi [OF this that(2)] show ?thesis using Suc by (simp add: add.assoc add.left_commute)
  qed
  show ?case
    using r V'(2,3,4) W(4) c1 c2 by (intro exI [of _ V']) simp
qed

lemma wf_zeros: "wf_mat (zeros m k)"
  by (simp add: wf_mat_def zeros_def list_all_length)

lemma aux_plus_Vpoly_Vpoly_ok:
  assumes "polyV P1 = Some V1" "polyV P2 = Some V2"
    and "wf_mat V1" "nrows V1 = n" "wf_mat V2" "nrows V2 = n"
  shows "\<exists>V'. aux_plus_Vpoly_Vpoly P1 P2 n = Inr (Polytope_V V') \<and> wf_mat V' \<and> nrows V' = n
           \<and> ncols V' = ncols V1 * ncols V2
           \<and> (\<forall>i<ncols V2. \<forall>j<ncols V1.
                 col V' (i * ncols V1 + j) = map2 (+) (col V1 j) (col V2 i))"
proof -
  let ?Vm = "zeros n (ncols V1 * ncols V2)"
  have le: "0 + length [0..<ncols V2] * ncols V1 \<le> ncols ?Vm"
    by (simp add: zeros_def mult.commute)
  have nz: "nrows ?Vm = n" by (simp add: zeros_def)
  from outer_loop_ok [OF assms(3-6) wf_zeros nz le]
  obtain V' where V': "outer_loop V1 V2 (ncols V1) [0..<ncols V2] ?Vm 0 = Inr (V', 0 + length [0..<ncols V2] * ncols V1)"
    "wf_mat V'" "nrows V' = n" "ncols V' = ncols ?Vm"
    and hi: "\<And>a j. a < length [0..<ncols V2] \<Longrightarrow> j < ncols V1 \<Longrightarrow>
              col V' (0 + a * ncols V1 + j) = map2 (+) (col V1 j) (col V2 ([0..<ncols V2] ! a))"
    by blast
  have r: "aux_plus_Vpoly_Vpoly P1 P2 n = Inr (Polytope_V V')"
    using V'(1) by (simp add: aux_plus_Vpoly_Vpoly_def assms(1,2) Let_def ebind_def)
  have c: "col V' (i * ncols V1 + j) = map2 (+) (col V1 j) (col V2 i)" if "i < ncols V2" "j < ncols V1" for i j
    using hi [of i j] that by simp
  show ?thesis
    using r V'(2,3,4) c by (intro exI [of _ V']) (simp add: zeros_def)
qed

lemma canon_vertex_facts:
  "\<not> representsa_canon V_segment k t" "\<not> representsa_canon V_triangle k t"
  by (simp_all add: representsa_canon_def V_segment_def V_triangle_def Polytope_V_def pdim_def
      Polytope_Inf_def Polytope_empty_def Polytope_origin_def Polytope_H_def)

text \<open>
  C3. For two polytopes of dimension n that both have a vertex representation and match
  none of the special cases, the sum is the vertex polytope whose matrix has n rows and
  exactly \<open>|V1| * |V2|\<close> columns: column \<open>i * |V1| + j\<close> is the sum of column j of V1 and
  column i of V2, one column per pair, with no reduction.
\<close>

theorem C3_vertex_sum:
  assumes "isVRep P1" "isVRep P2" "polyV P1 = Some V1" "polyV P2 = Some V2"
    and "wf_mat V1" "nrows V1 = n" "wf_mat V2" "nrows V2 = n"
    and "\<not> representsa P1 ''fullspace'' (1 / 10 ^ 10)" "\<not> representsa P2 ''fullspace'' (1 / 10 ^ 10)"
    and "\<not> representsa P1 ''emptySet'' (1 / 10 ^ 10)" "\<not> representsa P2 ''emptySet'' (1 / 10 ^ 10)"
    and "\<not> representsa P1 ''origin'' (1 / 10 ^ 10)" "\<not> representsa P2 ''origin'' (1 / 10 ^ 10)"
  shows "\<exists>V'. plus_polytope representsa constraints project n P1 P2 = Inr (Polytope_V V')
           \<and> isVRep (Polytope_V V') \<and> polyV (Polytope_V V') = Some V'
           \<and> wf_mat V' \<and> nrows V' = n \<and> ncols V' = ncols V1 * ncols V2
           \<and> (\<forall>i<ncols V2. \<forall>j<ncols V1.
                 col V' (i * ncols V1 + j) = map2 (+) (col V1 j) (col V2 i))"
proof -
  have p: "plus_polytope representsa constraints project n P1 P2 = aux_plus_Vpoly_Vpoly P1 P2 n"
    using assms(1,2,9-14) by (simp add: plus_polytope_def Let_def)
  from aux_plus_Vpoly_Vpoly_ok [OF assms(3-8)]
  obtain V' where "aux_plus_Vpoly_Vpoly P1 P2 n = Inr (Polytope_V V')" "wf_mat V'" "nrows V' = n"
    "ncols V' = ncols V1 * ncols V2"
    "\<forall>i<ncols V2. \<forall>j<ncols V1. col V' (i * ncols V1 + j) = map2 (+) (col V1 j) (col V2 i)"
    by blast
  then show ?thesis
    unfolding p by (intro exI [of _ V']) (simp add: Polytope_V_def)
qed

theorem C3_vertex_sum_witness:
  "isVRep V_segment \<and> isVRep V_triangle
   \<and> polyV V_segment = Some \<lparr>nrows = 2, ncols = 2, rws = [[0, 1], [0, 0]]\<rparr>
   \<and> polyV V_triangle = Some \<lparr>nrows = 2, ncols = 3, rws = [[0, 2, 0], [0, 0, 3]]\<rparr>
   \<and> plus_polytope representsa_canon (\<lambda>p. Inr p) (\<lambda>p dims. Inr p) 2 V_segment V_triangle
       = Inr (Polytope_V \<lparr>nrows = 2, ncols = 6, rws = [[0, 1, 2, 3, 0, 1], [0, 0, 0, 0, 3, 3]]\<rparr>)
   \<and> (\<exists>V'. plus_polytope representsa_canon (\<lambda>p. Inr p) (\<lambda>p dims. Inr p) 2 V_segment V_triangle
             = Inr (Polytope_V V')
           \<and> isVRep (Polytope_V V') \<and> polyV (Polytope_V V') = Some V'
           \<and> wf_mat V' \<and> nrows V' = 2
           \<and> ncols V' = ncols \<lparr>nrows = 2, ncols = 2, rws = [[0, 1], [0, 0]]\<rparr>
                          * ncols \<lparr>nrows = 2, ncols = 3, rws = [[0, 2, 0], [0, 0, 3]]\<rparr>
           \<and> (\<forall>i<ncols \<lparr>nrows = 2, ncols = 3, rws = [[0, 2, 0], [0, 0, 3]]\<rparr>.
                \<forall>j<ncols \<lparr>nrows = 2, ncols = 2, rws = [[0, 1], [0, 0]]\<rparr>.
                 col V' (i * ncols \<lparr>nrows = 2, ncols = 2, rws = [[0, 1], [0, 0]]\<rparr> + j)
                 = map2 (+) (col \<lparr>nrows = 2, ncols = 2, rws = [[0, 1], [0, 0]]\<rparr> j)
                            (col \<lparr>nrows = 2, ncols = 3, rws = [[0, 2, 0], [0, 0, 3]]\<rparr> i)))"
proof -
  let ?V1 = "\<lparr>nrows = 2, ncols = 2, rws = [[0, 1], [0, 0]]\<rparr>"
  let ?V2 = "\<lparr>nrows = 2, ncols = 3, rws = [[0, 2, 0], [0, 0, 3]]\<rparr>"
  have f: "isVRep V_segment" "isVRep V_triangle"
    by (simp_all add: V_segment_def V_triangle_def Polytope_V_def)
  have v: "polyV V_segment = Some ?V1" "polyV V_triangle = Some ?V2"
    by (simp_all add: V_segment_def V_triangle_def Polytope_V_def)
  have w: "wf_mat ?V1" "nrows ?V1 = 2" "wf_mat ?V2" "nrows ?V2 = 2"
    by (simp_all add: wf_mat_def)
  have u: "[0..<2] = [0, 1]" "[0..<3] = [0, 1, 2]"
    by (simp_all add: upt_rec)
  have a: "aux_plus_Vpoly_Vpoly V_segment V_triangle 2
      = Inr (Polytope_V \<lparr>nrows = 2, ncols = 6, rws = [[0, 1, 2, 3, 0, 1], [0, 0, 0, 0, 3, 3]]\<rparr>)"
    by (simp add: aux_plus_Vpoly_Vpoly_def v Let_def u ebind_def badd_def col_def set_col_def zeros_def
        replicate_numeral_simp)
  have e: "plus_polytope representsa_canon (\<lambda>p. Inr p) (\<lambda>p dims. Inr p) 2 V_segment V_triangle
       = Inr (Polytope_V \<lparr>nrows = 2, ncols = 6, rws = [[0, 1, 2, 3, 0, 1], [0, 0, 0, 0, 3, 3]]\<rparr>)"
    by (simp add: plus_polytope_def Let_def canon_vertex_facts f a)
  note t = C3_vertex_sum [of V_segment V_triangle ?V1 ?V2 2 representsa_canon "\<lambda>p. Inr p" "\<lambda>p dims. Inr p",
      OF f v w canon_vertex_facts(1) canon_vertex_facts(2) canon_vertex_facts(1) canon_vertex_facts(2)
         canon_vertex_facts(1) canon_vertex_facts(2)]
  show ?thesis
    by (intro conjI f v e t)
qed





text \<open>
  The lifted system in the three cases other than "only the second operand has equality
  constraints": a pair (x, y) satisfies it exactly when y lies in P1 and x - y in P2, so
  the points x that have a lift are the points of the Minkowski sum.
\<close>

lemma dot_uminus: "dot (map uminus r) y = - dot r y"
proof (induction r arbitrary: y)
  case Nil
  then show ?case by simp
next
  case (Cons a r)
  then show ?case by (cases y) simp_all
qed

lemma dot_diff:
  "length r = length x \<Longrightarrow> length x = length y \<Longrightarrow> dot r (map2 (-) x y) = dot r x - dot r y"
  by (induction r x y rule: list_induct3) (simp_all add: algebra_simps)

lemma dot_replicate_0: "dot (replicate n 0) x = 0"
proof (induction n arbitrary: x)
  case 0
  then show ?case by simp
next
  case (Suc n)
  then show ?case by (cases x) simp_all
qed

lemma dot_lift_diff:
  "length r = n \<Longrightarrow> length x = n \<Longrightarrow> length y = n \<Longrightarrow>
   dot (r @ map uminus r) (x @ y) = dot r (map2 (-) x y)"
  by (simp add: dot_append dot_uminus dot_diff)

lemma dot_lift_right:
  "length x = n \<Longrightarrow> dot (replicate n 0 @ r) (x @ y) = dot r y"
  by (simp add: dot_append dot_replicate_0)

lemma block_lift:
  assumes "wf_mat M1" "ncols M1 = n" "wf_mat M2" "ncols M2 = n"
  shows "block2x2 M2 (mat_neg M2) (zeros (nrows M1) (ncols M2)) M1 =
     Inr \<lparr>nrows = nrows M2 + nrows M1, ncols = n + n,
          rws = map (\<lambda>r. r @ map uminus r) (rws M2) @ map (\<lambda>r. replicate n 0 @ r) (rws M1)\<rparr>"
proof -
  have l1: "length (rws M1) = nrows M1" and l2: "length (rws M2) = nrows M2"
    using assms by (simp_all add: wf_mat_def)
  have b: "map2 (@) (replicate (nrows M1) (replicate n 0)) (rws M1) = map (\<lambda>r. replicate n 0 @ r) (rws M1)"
    using l1 by (intro nth_equalityI) simp_all
  have a': "map2 (@) xs (map (map uminus) xs) = map (\<lambda>r. r @ map uminus r) xs" for xs :: "real list list"
    by (induction xs) simp_all
  show ?thesis
    using assms(2,4) by (simp add: block2x2_def hconcat_def vstack_def mat_neg_def zeros_def ebind_def a' b)
qed

lemma list_all_zip_lift_left:
  "length R2 = length b2 \<Longrightarrow> \<forall>r\<in>set R2. length r = n \<Longrightarrow> length x = n \<Longrightarrow> length y = n \<Longrightarrow>
   list_all (\<lambda>(r, t). Q (dot r (x @ y)) t) (zip (map (\<lambda>r. r @ map uminus r) R2) b2)
     = list_all (\<lambda>(r, t). Q (dot r (map2 (-) x y)) t) (zip R2 b2)"
  by (induction R2 b2 rule: list_induct2) (simp_all add: dot_lift_diff)

lemma list_all_zip_lift_right:
  "length x = n \<Longrightarrow>
   list_all (\<lambda>(r, t). Q (dot r (x @ y)) t) (zip (map (\<lambda>r. replicate n 0 @ r) R1) b1)
     = list_all (\<lambda>(r, t). Q (dot r y) t) (zip R1 b1)"
proof (induction R1 arbitrary: b1)
  case Nil
  then show ?case by simp
next
  case (Cons r R1)
  then show ?case by (cases b1) (simp_all add: dot_lift_right)
qed

lemma list_all_zip_lift:
  assumes "length R2 = length b2" "\<forall>r\<in>set R2. length r = n" "length x = n" "length y = n"
  shows "list_all (\<lambda>(r, t). Q (dot r (x @ y)) t)
           (zip (map (\<lambda>r. r @ map uminus r) R2 @ map (\<lambda>r. replicate n 0 @ r) R1) (b2 @ b1))
       = (list_all (\<lambda>(r, t). Q (dot r (map2 (-) x y)) t) (zip R2 b2)
          \<and> list_all (\<lambda>(r, t). Q (dot r y) t) (zip R1 b1))"
  using assms(1)
  by (simp add: zip_append list_all_zip_lift_left [OF assms] list_all_zip_lift_right [OF assms(3)])

lemma hconcat_zeros_left:
  assumes "wf_mat M" 
  shows "hconcat (zeros (nrows M) n) M
     = Inr \<lparr>nrows = nrows M, ncols = n + ncols M, rws = map (\<lambda>r. replicate n 0 @ r) (rws M)\<rparr>"
proof -
  have l: "length (rws M) = nrows M" using assms by (simp add: wf_mat_def)
  have "map2 (@) (replicate (nrows M) (replicate n 0)) (rws M) = map (\<lambda>r. replicate n 0 @ r) (rws M)"
    using l by (intro nth_equalityI) simp_all
  then show ?thesis by (simp add: hconcat_def zeros_def)
qed

lemma aux_lift_membership:
  assumes "wf_hrep P1 n" "wf_hrep P2 n" "length x = n" "length y = n"
    and "polyAe P1 \<noteq> None \<or> polyAe P2 = None"
  shows "\<exists>L. aux_lift P1 P2 n = Inr L
           \<and> in_poly L (x @ y) = (in_poly P2 (map2 (-) x y) \<and> in_poly P1 y)"
proof -
  from assms(1) obtain A1 b1 where P1: "polyA P1 = Some A1" "polyb P1 = Some b1"
    "wf_mat A1" "ncols A1 = n" "length b1 = nrows A1"
    by (auto simp: wf_hrep_def split: option.splits)
  from assms(2) obtain A2 b2 where P2: "polyA P2 = Some A2" "polyb P2 = Some b2"
    "wf_mat A2" "ncols A2 = n" "length b2 = nrows A2"
    by (auto simp: wf_hrep_def split: option.splits)
  let ?A = "\<lparr>nrows = nrows A2 + nrows A1, ncols = n + n,
          rws = map (\<lambda>r. r @ map uminus r) (rws A2) @ map (\<lambda>r. replicate n 0 @ r) (rws A1)\<rparr>"
  have r2: "length (rws A2) = length b2" "\<forall>r\<in>set (rws A2). length r = n"
    using P2 by (auto simp: wf_mat_def list_all_iff)
  have blk: "block2x2 A2 (mat_neg A2) (zeros (nrows A1) (ncols A2)) A1 = Inr ?A"
    by (rule block_lift [OF P1(3,4) P2(3,4)])
  have ineq: "list_all (\<lambda>(r, t). dot r (x @ y) \<le> t) (zip (rws ?A) (b2 @ b1))
       = (list_all (\<lambda>(r, t). dot r (map2 (-) x y) \<le> t) (zip (rws A2) b2)
          \<and> list_all (\<lambda>(r, t). dot r y \<le> t) (zip (rws A1) b1))"
    using list_all_zip_lift [OF r2 assms(3,4), of "(\<le>)" "rws A1" b1] by simp
  have i1: "in_poly P1 y = (list_all (\<lambda>(r, t). dot r y \<le> t) (zip (rws A1) b1)
       \<and> (case polyAe P1 of None \<Rightarrow> True
          | Some Aem \<Rightarrow> list_all (\<lambda>(r, t). dot r y = t) (zip (rws Aem) (the (polybe P1)))))"
    by (simp add: in_poly_def P1)
  have i2: "in_poly P2 (map2 (-) x y) = (list_all (\<lambda>(r, t). dot r (map2 (-) x y) \<le> t) (zip (rws A2) b2)
       \<and> (case polyAe P2 of None \<Rightarrow> True
          | Some Aem \<Rightarrow> list_all (\<lambda>(r, t). dot r (map2 (-) x y) = t) (zip (rws Aem) (the (polybe P2)))))"
    by (simp add: in_poly_def P2)
  have iL: "in_poly (Polytope_H ?A (b2 @ b1) Ae be) (x @ y)
      = ((list_all (\<lambda>(r, t). dot r (map2 (-) x y) \<le> t) (zip (rws A2) b2)
          \<and> list_all (\<lambda>(r, t). dot r y \<le> t) (zip (rws A1) b1))
         \<and> (case Ae of None \<Rightarrow> True
            | Some Aem \<Rightarrow> list_all (\<lambda>(r, t). dot r (x @ y) = t) (zip (rws Aem) (the be))))" for Ae be
    unfolding ineq [symmetric] by (simp add: in_poly_def Polytope_H_def split: option.split)
  show ?thesis
  proof (cases "polyAe P1")
    case None
    then have N2: "polyAe P2 = None" using assms(5) by simp
    have L: "aux_lift P1 P2 n = Inr (Polytope_H ?A (b2 @ b1) None None)"
      unfolding aux_lift_def P1 P2 None N2 Let_def
      by (simp add: blk vstack_vec_def ebind_def)
    have "in_poly (Polytope_H ?A (b2 @ b1) None None) (x @ y)
        = (in_poly P2 (map2 (-) x y) \<and> in_poly P1 y)"
      unfolding i1 i2 iL None N2 by auto
    with L show ?thesis by blast
  next
    case (Some Ae1)
    note S1 = Some
    from assms(1) Some obtain be1 where E1: "polybe P1 = Some be1" "wf_mat Ae1" "ncols Ae1 = n"
      "length be1 = nrows Ae1"
      by (auto simp: wf_hrep_def P1 split: option.splits)
    show ?thesis
    proof (cases "polyAe P2")
      case None
      let ?Ae = "\<lparr>nrows = nrows Ae1, ncols = n + n, rws = map (\<lambda>r. replicate n 0 @ r) (rws Ae1)\<rparr>"
      have h: "hconcat (zeros (nrows Ae1) n) Ae1 = Inr ?Ae"
        using hconcat_zeros_left [OF E1(2), of n] by (simp add: E1(3))
      have eq: "list_all (\<lambda>(r, t). dot r (x @ y) = t) (zip (rws ?Ae) be1)
          = list_all (\<lambda>(r, t). dot r y = t) (zip (rws Ae1) be1)"
        using list_all_zip_lift_right [OF assms(3), of "(=)" y "rws Ae1" be1] by simp
      have L: "aux_lift P1 P2 n = Inr (Polytope_H ?A (b2 @ b1) (Some ?Ae) (Some be1))"
        unfolding aux_lift_def P1 P2 S1 None E1 Let_def
        by (simp add: blk h vstack_vec_def ebind_def E1(3))
      have "in_poly (Polytope_H ?A (b2 @ b1) (Some ?Ae) (Some be1)) (x @ y)
          = (in_poly P2 (map2 (-) x y) \<and> in_poly P1 y)"
        unfolding i1 i2 iL S1 None E1 option.case option.sel eq by auto
      with L show ?thesis by blast
    next
      case (Some Ae2)
      from assms(2) Some obtain be2 where E2: "polybe P2 = Some be2" "wf_mat Ae2" "ncols Ae2 = n"
        "length be2 = nrows Ae2"
        by (auto simp: wf_hrep_def P2 split: option.splits)
      let ?Ae = "\<lparr>nrows = nrows Ae2 + nrows Ae1, ncols = n + n,
          rws = map (\<lambda>r. r @ map uminus r) (rws Ae2) @ map (\<lambda>r. replicate n 0 @ r) (rws Ae1)\<rparr>"
      have e2: "length (rws Ae2) = length be2" "\<forall>r\<in>set (rws Ae2). length r = n"
        using E2 by (auto simp: wf_mat_def list_all_iff)
      have blke: "block2x2 Ae2 (mat_neg Ae2) (zeros (nrows Ae1) (ncols Ae2)) Ae1 = Inr ?Ae"
        by (rule block_lift [OF E1(2,3) E2(2,3)])
      have eq: "list_all (\<lambda>(r, t). dot r (x @ y) = t) (zip (rws ?Ae) (be2 @ be1))
         = (list_all (\<lambda>(r, t). dot r (map2 (-) x y) = t) (zip (rws Ae2) be2)
            \<and> list_all (\<lambda>(r, t). dot r y = t) (zip (rws Ae1) be1))"
        using list_all_zip_lift [OF e2 assms(3,4), of "(=)" "rws Ae1" be1] by simp
      have L: "aux_lift P1 P2 n = Inr (Polytope_H ?A (b2 @ b1) (Some ?Ae) (Some (be2 @ be1)))"
        unfolding aux_lift_def P1 P2 S1 Some E1 E2 Let_def
        by (simp add: blk blke vstack_vec_def ebind_def)
      have "in_poly (Polytope_H ?A (b2 @ b1) (Some ?Ae) (Some (be2 @ be1))) (x @ y)
          = (in_poly P2 (map2 (-) x y) \<and> in_poly P1 y)"
        unfolding i1 i2 iL S1 Some E1 E2 option.case option.sel eq by auto
      with L show ?thesis by blast
    qed
  qed
qed

lemma map2_add_diff_cancel:
  "length (x :: real list) = length y \<Longrightarrow> map2 (+) y (map2 (-) x y) = x"
  by (induction x y rule: list_induct2) simp_all

lemma map2_diff_add_cancel:
  "length (p :: real list) = length q \<Longrightarrow> map2 (-) (map2 (+) p q) p = q"
  by (induction p q rule: list_induct2) simp_all

lemma aux_lift_minkowski:
  assumes "wf_hrep P1 n" "wf_hrep P2 n" "polyAe P1 \<noteq> None \<or> polyAe P2 = None" "length x = n"
  shows "\<exists>L. aux_lift P1 P2 n = Inr L
           \<and> ((\<exists>y. length y = n \<and> in_poly L (x @ y))
                = (\<exists>p q. length p = n \<and> length q = n \<and> in_poly P1 p \<and> in_poly P2 q
                      \<and> x = map2 (+) p q))"
proof -
  from aux_lift_membership [OF assms(1,2,4) _ assms(3), of "replicate n 0"]
  obtain L where L: "aux_lift P1 P2 n = Inr L" by auto
  have m: "in_poly L (x @ y) = (in_poly P2 (map2 (-) x y) \<and> in_poly P1 y)" if "length y = n" for y
    using aux_lift_membership [OF assms(1,2,4) that assms(3)] L by auto
  have "(\<exists>y. length y = n \<and> in_poly L (x @ y))
      = (\<exists>p q. length p = n \<and> length q = n \<and> in_poly P1 p \<and> in_poly P2 q \<and> x = map2 (+) p q)"
  proof
    assume "\<exists>y. length y = n \<and> in_poly L (x @ y)"
    then obtain y where y: "length y = n" "in_poly L (x @ y)" by blast
    then have "in_poly P1 y" "in_poly P2 (map2 (-) x y)" using m by simp_all
    moreover have "x = map2 (+) y (map2 (-) x y)"
      using map2_add_diff_cancel [of x y] assms(4) y(1) by simp
    moreover have "length (map2 (-) x y) = n" using assms(4) y(1) by simp
    ultimately show "\<exists>p q. length p = n \<and> length q = n \<and> in_poly P1 p \<and> in_poly P2 q \<and> x = map2 (+) p q"
      using y(1) by blast
  next
    assume "\<exists>p q. length p = n \<and> length q = n \<and> in_poly P1 p \<and> in_poly P2 q \<and> x = map2 (+) p q"
    then obtain p q where pq: "length p = n" "length q = n" "in_poly P1 p" "in_poly P2 q" "x = map2 (+) p q"
      by blast
    have "map2 (-) x p = q" using map2_diff_add_cancel [of p q] pq by simp
    then have "in_poly L (x @ p)" using m [OF pq(1)] pq by simp
    then show "\<exists>y. length y = n \<and> in_poly L (x @ y)" using pq(1) by blast
  qed
  with L show ?thesis by blast
qed


text \<open>
  C2, evaluated where only the second operand carries equality constraints: the interval
  \<open>[0, 1]\<close> plus the point 1. The lifted system gets the equality row \<open>[Ae2, 0]\<close>, which
  constrains the sum itself, where the row \<open>[Ae2, -Ae2]\<close> of the case with both equality
  blocks constrains the summand. The point 2 = 1 + 1 of the Minkowski sum has no lift that
  satisfies the system, so no projection of it yields the Minkowski sum; with the row
  \<open>[Ae2, -Ae2]\<close> the lift (2, 1) satisfies it.
\<close>

theorem C2_only_P2_equalities:
  "aux_lift P_interval P_point 1 = Inr lifted_point
   \<and> plus_polytope representsa_canon constraints project 1 P_interval P_point = project lifted_point [1]
   \<and> in_poly P_interval [1] \<and> in_poly P_point [1]
   \<and> (\<forall>y. \<not> in_poly lifted_point [1 + 1, y])
   \<and> in_poly (Polytope_H \<lparr>nrows = 3, ncols = 2, rws = [[1, - 1], [0, 1], [0, - 1]]\<rparr> [1, 1, 0]
                (Some \<lparr>nrows = 1, ncols = 2, rws = [[1, - 1]]\<rparr>) (Some [1])) [1 + 1, 1]"
proof -
  have l: "aux_lift P_interval P_point 1 = Inr lifted_point"
    by (simp add: aux_lift_def P_interval_def P_point_def lifted_point_def block2x2_def hconcat_def
        vstack_def vstack_vec_def mat_neg_def zeros_def ebind_def Let_def Polytope_H_def
        replicate_numeral_simp)
  have r: "\<not> representsa_canon P_interval k t" "\<not> representsa_canon P_point k t" for k t
    by (simp_all add: representsa_canon_def P_interval_def P_point_def pdim_def
        Polytope_Inf_def Polytope_empty_def Polytope_origin_def Polytope_H_def zeros_def eye_def)
  have f: "isHRep P_interval" "isHRep P_point" "\<not> isVRep P_interval" "\<not> isVRep P_point"
    by (simp_all add: P_interval_def P_point_def)
  have p: "plus_polytope representsa_canon constraints project 1 P_interval P_point = project lifted_point [1]"
    using l by (simp add: plus_polytope_def Let_def r f aux_plus_Hpoly_Hpoly_def ebind_def)
  have m: "in_poly P_interval [1] \<and> in_poly P_point [1]"
    by (simp add: in_poly_def P_interval_def P_point_def dot_def)
  have n: "\<not> in_poly lifted_point [1 + 1, y]" for y
    by (simp add: in_poly_def lifted_point_def Polytope_H_def dot_def)
  have q: "in_poly (Polytope_H \<lparr>nrows = 3, ncols = 2, rws = [[1, - 1], [0, 1], [0, - 1]]\<rparr> [1, 1, 0]
                (Some \<lparr>nrows = 1, ncols = 2, rws = [[1, - 1]]\<rparr>) (Some [1])) [1 + 1, 1]"
    by (simp add: in_poly_def Polytope_H_def)
  from l p m n q show ?thesis by blast
qed


subsection \<open>The empty zonotope\<close>

text \<open>
  C8 (as amended). For every non-negative n the empty-zonotope constructor returns the
  zero-generator sentinel whose centre has n rows and zero columns (not zero rows): the
  ambient dimension n is read off the rows, and the number of points (columns of the
  centre) and of generators is zero.
\<close>

theorem C8_empty_shape:
  "0 \<le> n \<Longrightarrow>
     (\<exists>Z. zonotope_empty n = Inr Z
        \<and> nrows (center Z) = nat n \<and> ncols (center Z) = 0 \<and> rws (center Z) = replicate (nat n) []
        \<and> nrows (generators Z) = nat n \<and> ncols (generators Z) = 0
        \<and> zdim Z = nat n \<and> wf_mat (center Z) \<and> wf_mat (generators Z))"
  by (simp add: zonotope_empty_def zeros_def zdim_def wf_mat_def list_all_length)

theorem C8_empty_shape_witness:
  "(0::int) \<le> 3 \<and>
     (\<exists>Z. zonotope_empty 3 = Inr Z
        \<and> nrows (center Z) = nat 3 \<and> ncols (center Z) = 0 \<and> rws (center Z) = replicate (nat 3) []
        \<and> nrows (generators Z) = nat 3 \<and> ncols (generators Z) = 0
        \<and> zdim Z = nat 3 \<and> wf_mat (center Z) \<and> wf_mat (generators Z))"
  using C8_empty_shape [of 3] by simp

text \<open>
  C8 (as stated) fails: the centre of the empty zonotope of dimension 2 has two rows (and
  no column), not zero rows.
\<close>

theorem C8_zero_rows_counterexample:
  "map_sum id (\<lambda>Z. (nrows (center Z), ncols (center Z))) (zonotope_empty 2) = Inr (2, 0)
   \<and> map_sum id (\<lambda>Z. nrows (center Z)) (zonotope_empty 2) \<noteq> Inr 0"
  by (simp add: zonotope_empty_def zeros_def)

end
